theory Spec2Isabelle
  imports Complex_Main
begin

section \<open>JavaScript numbers\<close>

text \<open>
  A JavaScript number is NaN, one of the two infinities, or a finite value. The operations
  of this section compute on finite values as exact reals; the operations that round to
  IEEE-754 binary64 follow in their own section. The sign of zero is outside the model (a
  zero divisor counts as \<open>+0\<close>; the only division by a computed value in the engine
  divides by a difference of two integers, which is \<open>+0\<close> when it is zero).
\<close>

datatype number = NaN | NegInf | PosInf | Fin real

text \<open>Subtraction \<open>a - b\<close>.\<close>

fun num_sub :: "number \<Rightarrow> number \<Rightarrow> number" where
  "num_sub (Fin a) (Fin b) = Fin (a - b)"
| "num_sub NaN _ = NaN"
| "num_sub _ NaN = NaN"
| "num_sub PosInf PosInf = NaN"
| "num_sub NegInf NegInf = NaN"
| "num_sub PosInf _ = PosInf"
| "num_sub NegInf _ = NegInf"
| "num_sub (Fin a) PosInf = NegInf"
| "num_sub (Fin a) NegInf = PosInf"

text \<open>Multiplication \<open>a * b\<close>.\<close>

fun num_mul :: "number \<Rightarrow> number \<Rightarrow> number" where
  "num_mul (Fin a) (Fin b) = Fin (a * b)"
| "num_mul NaN _ = NaN"
| "num_mul _ NaN = NaN"
| "num_mul (Fin a) y =
     (if a = 0 then NaN else if (0 < a) = (y = PosInf) then PosInf else NegInf)"
| "num_mul x (Fin b) =
     (if b = 0 then NaN else if (0 < b) = (x = PosInf) then PosInf else NegInf)"
| "num_mul x y = (if x = y then PosInf else NegInf)"

text \<open>Division \<open>a / b\<close>.\<close>

fun num_div :: "number \<Rightarrow> number \<Rightarrow> number" where
  "num_div (Fin a) (Fin b) =
     (if b = 0 then (if a = 0 then NaN else if 0 < a then PosInf else NegInf)
      else Fin (a / b))"
| "num_div NaN _ = NaN"
| "num_div _ NaN = NaN"
| "num_div (Fin a) _ = Fin 0"
| "num_div x (Fin b) = (if (0 \<le> b) = (x = PosInf) then PosInf else NegInf)"
| "num_div _ _ = NaN"

text \<open>The remainder \<open>a % b\<close>: the quotient is truncated towards zero.\<close>

definition trunc :: "real \<Rightarrow> int" where
  "trunc x = (if 0 \<le> x then \<lfloor>x\<rfloor> else \<lceil>x\<rceil>)"

fun num_rem :: "number \<Rightarrow> number \<Rightarrow> number" where
  "num_rem (Fin a) (Fin b) =
     (if b = 0 then NaN else Fin (a - b * of_int (trunc (a / b))))"
| "num_rem (Fin a) NaN = NaN"
| "num_rem (Fin a) _ = Fin a"
| "num_rem _ _ = NaN"

text \<open>\<open>Math.floor\<close>, \<open>Math.max\<close> and \<open>Math.min\<close> of two arguments.\<close>

fun num_floor :: "number \<Rightarrow> number" where
  "num_floor (Fin a) = Fin (of_int \<lfloor>a\<rfloor>)"
| "num_floor x = x"

fun num_max :: "number \<Rightarrow> number \<Rightarrow> number" where
  "num_max (Fin a) (Fin b) = Fin (max a b)"
| "num_max NaN _ = NaN"
| "num_max _ NaN = NaN"
| "num_max PosInf _ = PosInf"
| "num_max _ PosInf = PosInf"
| "num_max NegInf y = y"
| "num_max x NegInf = x"

fun num_min :: "number \<Rightarrow> number \<Rightarrow> number" where
  "num_min (Fin a) (Fin b) = Fin (min a b)"
| "num_min NaN _ = NaN"
| "num_min _ NaN = NaN"
| "num_min NegInf _ = NegInf"
| "num_min _ NegInf = NegInf"
| "num_min PosInf y = y"
| "num_min x PosInf = x"

text \<open>The comparisons \<open>a <= b\<close> and \<open>a < b\<close>: false as soon as one side is NaN.\<close>

fun num_le :: "number \<Rightarrow> number \<Rightarrow> bool" where
  "num_le (Fin a) (Fin b) = (a \<le> b)"
| "num_le NaN _ = False"
| "num_le _ NaN = False"
| "num_le NegInf _ = True"
| "num_le _ PosInf = True"
| "num_le _ _ = False"

fun num_lt :: "number \<Rightarrow> number \<Rightarrow> bool" where
  "num_lt (Fin a) (Fin b) = (a < b)"
| "num_lt NaN _ = False"
| "num_lt _ NaN = False"
| "num_lt PosInf _ = False"
| "num_lt _ NegInf = False"
| "num_lt _ _ = True"

text \<open>
  Truthiness of a number (\<open>ToBoolean\<close>): zero and NaN are falsy.
\<close>

fun num_truthy :: "number \<Rightarrow> bool" where
  "num_truthy NaN = False"
| "num_truthy (Fin a) = (a \<noteq> 0)"
| "num_truthy _ = True"

section \<open>The runtime: clock, calendar, strings\<close>

text \<open>
  What the engine takes from its runtime and cannot be read off the repository is a
  parameter of the model: the offset of local time from UTC in milliseconds (one constant
  offset: daylight-saving transitions are not modelled), whether \<open>performance.now\<close> and
  \<open>requestAnimationFrame\<close> exist, the parser behind \<open>new Date(string)\<close>, the locale
  formatter behind \<open>toLocaleDateString\<close>, and the digits that \<open>Number::toString\<close> prints
  for a value that is not a plain integer. A \<open>Date\<close> is its time value: integral
  milliseconds since the epoch, or \<open>None\<close> for an Invalid Date.
\<close>

type_synonym date = "int option"

datatype date_format = WeekdayLong | FullLong

record env =
  tza :: int
  hasPerformance :: bool
  hasRAF :: bool
  parseDate :: "string \<Rightarrow> date"
  toLocaleDateString :: "date \<Rightarrow> date_format \<Rightarrow> string"
  numberToString :: "real \<Rightarrow> string"

text \<open>
  One reading of the clocks: \<open>wall\<close> is what \<open>Date.now()\<close> and \<open>new Date()\<close> see,
  \<open>perf\<close> is \<open>performance.timeOrigin + performance.now()\<close>.
\<close>

record clock =
  wall :: int
  perf :: real

subsection \<open>Calendar arithmetic of the Date object\<close>

definition msPerDay :: int where
  "msPerDay = 86400000"

definition DayFromYear :: "int \<Rightarrow> int" where
  "DayFromYear y =
     365 * (y - 1970) + (y - 1969) div 4 - (y - 1901) div 100 + (y - 1601) div 400"

definition DaysInYear :: "int \<Rightarrow> int" where
  "DaysInYear y =
     (if y mod 4 \<noteq> 0 then 365 else if y mod 100 \<noteq> 0 then 366
      else if y mod 400 \<noteq> 0 then 365 else 366)"

text \<open>
  The year of a day number: the largest \<open>y\<close> with \<open>DayFromYear y \<le> d\<close>, found from the
  mean length of a year (146097 days in 400 years) and corrected by at most one.
\<close>

definition YearFromDay :: "int \<Rightarrow> int" where
  "YearFromDay d =
     (let e = 1970 + (400 * d) div 146097
      in if DayFromYear (e + 1) \<le> d then e + 1
         else if d < DayFromYear e then e - 1 else e)"

definition YearFromTime :: "int \<Rightarrow> int" where
  "YearFromTime t = YearFromDay (t div msPerDay)"

text \<open>Days of the year before month \<open>m\<close> (0 is January), in a leap year or not.\<close>

definition monthStart :: "int \<Rightarrow> bool \<Rightarrow> int" where
  "monthStart m leap =
     [0, 31, 59, 90, 120, 151, 181, 212, 243, 273, 304, 334] ! nat m
       + (if leap \<and> 2 \<le> m then 1 else 0)"

definition MakeDay :: "int \<Rightarrow> int \<Rightarrow> int \<Rightarrow> int" where
  "MakeDay year month dt =
     (let ym = year + month div 12; mn = month mod 12
      in DayFromYear ym + monthStart mn (DaysInYear ym = 366) + dt - 1)"

definition MakeDate :: "int \<Rightarrow> int \<Rightarrow> int" where
  "MakeDate day time = day * msPerDay + time"

definition TimeClip :: "int \<Rightarrow> date" where
  "TimeClip t = (if 8640000000000000 < \<bar>t\<bar> then None else Some t)"

definition LocalTime :: "env \<Rightarrow> int \<Rightarrow> int" where
  "LocalTime env t = t + tza env"

definition UTC :: "env \<Rightarrow> int \<Rightarrow> int" where
  "UTC env t = t - tza env"

text \<open>
  \<open>new Date(year, month, day, 0, 0, 0, 0)\<close>: local midnight of that day; a year from 0 to
  99 means 1900 + year.
\<close>

definition newDate :: "env \<Rightarrow> int \<Rightarrow> int \<Rightarrow> int \<Rightarrow> date" where
  "newDate env year month dt =
     (let yr = (if 0 \<le> year \<and> year \<le> 99 then 1900 + year else year)
      in TimeClip (UTC env (MakeDate (MakeDay yr month dt) 0)))"

fun getTime :: "date \<Rightarrow> number" where
  "getTime None = NaN"
| "getTime (Some t) = Fin (of_int t)"

text \<open>\<open>getFullYear\<close> of a valid date with time value \<open>t\<close>.\<close>

definition getFullYear :: "env \<Rightarrow> int \<Rightarrow> int" where
  "getFullYear env t = YearFromTime (LocalTime env t)"

subsection \<open>Numbers as strings\<close>

definition digit_char :: "nat \<Rightarrow> char" where
  "digit_char n = ''0123456789'' ! (n mod 10)"

fun decimal :: "nat \<Rightarrow> string" where
  "decimal n = (if n < 10 then [digit_char n] else decimal (n div 10) @ [digit_char (n mod 10)])"

declare decimal.simps [simp del]

text \<open>
  \<open>ToString\<close> of a number, as a template literal applies it. An integer below \<open>10^21\<close>
  prints its decimal digits; any other finite value prints what the runtime's shortest
  round-trip algorithm gives.
\<close>

fun ToString :: "env \<Rightarrow> number \<Rightarrow> string" where
  "ToString env NaN = ''NaN''"
| "ToString env PosInf = ''Infinity''"
| "ToString env NegInf = ''-Infinity''"
| "ToString env (Fin x) =
     (if x = of_int \<lfloor>x\<rfloor> \<and> \<bar>x\<bar> < 10 ^ 21
      then (if x < 0 then ''-'' else '''') @ decimal (nat \<bar>\<lfloor>x\<rfloor>\<bar>)
      else numberToString env x)"

text \<open>
  \<open>x.toFixed(2)\<close>: a value that is not finite or is at least \<open>10^21\<close> in magnitude prints
  as \<open>ToString\<close> does; otherwise the nearest multiple of 1/100 (the larger on a tie) is
  printed with at least one digit before the point and two after.
\<close>

fun toFixed2 :: "env \<Rightarrow> number \<Rightarrow> string" where
  "toFixed2 env (Fin x) =
     (if 10 ^ 21 \<le> \<bar>x\<bar> then ToString env (Fin x)
      else
        (let n = nat \<lfloor>\<bar>x\<bar> * 100 + 1 / 2\<rfloor>;
             m = decimal n;
             m' = (if length m \<le> 2 then replicate (3 - length m) (CHR ''0'') @ m else m);
             k = length m'
         in (if x < 0 then ''-'' else '''') @ take (k - 2) m' @ ''.'' @ drop (k - 2) m'))"
| "toFixed2 env x = ToString env x"

section \<open>The countdown engine\<close>

text \<open>
  The fields of \<open>CountdownEngine\<close> that its methods read or write. \<open>targetDate\<close> is
  \<open>null\<close> (\<open>None\<close>) or a Date; \<open>targetYear\<close> and \<open>eventName\<close> do not exist until a
  setter assigns them; \<open>intervalId\<close> and \<open>rafId\<close> are \<open>null\<close>/\<open>undefined\<close> or a handle.
  The callbacks \<open>onUpdate\<close> and \<open>onComplete\<close> are recorded where they are called (see
  \<open>world\<close> below); the \<open>timezone\<close> field is never read by the engine.
\<close>

record engine =
  targetDate :: "date option"
  targetYear :: "int option"
  eventName :: "string option"
  intervalId :: "nat option"
  rafId :: "nat option"
  lastUpdateTime :: real
  updateFrequency :: number
  yearRange_start :: int
  yearRange_end :: int
  useHighPrecision :: bool

text \<open>The constructor; its argument is \<open>options.updateFrequency\<close>, if given.\<close>

definition CountdownEngine :: "env \<Rightarrow> number option \<Rightarrow> engine" where
  "CountdownEngine env freq =
     \<lparr> targetDate = None, targetYear = None, eventName = None,
       intervalId = None, rafId = None, lastUpdateTime = 0,
       updateFrequency =
         (case freq of None \<Rightarrow> Fin 1000
          | Some f \<Rightarrow> if num_truthy f then f else Fin 1000),
       yearRange_start = 2024, yearRange_end = 2035,
       useHighPrecision = hasPerformance env \<rparr>"

definition getHighPrecisionTime :: "clock \<Rightarrow> engine \<Rightarrow> real" where
  "getHighPrecisionTime clk e =
     (if useHighPrecision e then perf clk else of_int (wall clk))"

text \<open>
  \<open>setBoxingDay(year = null)\<close>. The argument is falsy when it is omitted and when it
  is 0.
\<close>

definition setBoxingDay :: "env \<Rightarrow> clock \<Rightarrow> int option \<Rightarrow> engine \<Rightarrow> engine" where
  "setBoxingDay env clk yr e =
     (let now = wall clk;
          given = (case yr of None \<Rightarrow> False | Some y \<Rightarrow> y \<noteq> 0);
          targetYear0 = (case yr of None \<Rightarrow> getFullYear env now
                         | Some y \<Rightarrow> if y \<noteq> 0 then y else getFullYear env now);
          target0 = newDate env targetYear0 11 26;
          passed = (\<not> given \<and> num_lt (getTime target0) (Fin (of_int now)));
          targetYear1 = (if passed then targetYear0 + 1 else targetYear0);
          target1 = (if passed then newDate env targetYear1 11 26 else target0)
      in e\<lparr>targetDate := Some target1, targetYear := Some targetYear1\<rparr>)"

text \<open>\<open>setCustomDate(dateString, name = 'Custom Event')\<close>.\<close>

definition setCustomDate :: "env \<Rightarrow> string \<Rightarrow> string option \<Rightarrow> engine \<Rightarrow> engine" where
  "setCustomDate env dateString name e =
     e\<lparr>targetDate := Some (parseDate env dateString),
       eventName := Some (case name of None \<Rightarrow> ''Custom Event'' | Some n \<Rightarrow> n)\<rparr>"

text \<open>
  The object returned by \<open>calculateTimeRemaining\<close>. The property \<open>totalDays\<close> is
  optional (\<open>None\<close>: the object has no such property); \<open>progress\<close> holds a number or a
  string.
\<close>

datatype jsval = Num number | Str string

record remaining =
  total_ms :: number
  months :: number
  weeks :: number
  days :: number
  hours :: number
  minutes :: number
  seconds :: number
  milliseconds :: number
  totalDays :: "number option"
  isComplete :: bool
  progress :: jsval

text \<open>
  \<open>calculateTimeRemaining\<close> returns the object and the engine, which it changes when no
  target was set. (After \<open>setBoxingDay\<close> the target is never \<open>null\<close>, so the \<open>None\<close>
  case of the target below is never taken.)
\<close>

definition calculateTimeRemaining :: "env \<Rightarrow> clock \<Rightarrow> engine \<Rightarrow> remaining \<times> engine" where
  "calculateTimeRemaining env clk e0 =
     (let e = (if targetDate e0 = None then setBoxingDay env clk None e0 else e0);
          now = Fin (getHighPrecisionTime clk e);
          target = (case targetDate e of None \<Rightarrow> NaN | Some d \<Rightarrow> getTime d);
          diff = num_sub target now
      in if num_le diff (Fin 0) then
           (\<lparr> total_ms = Fin 0, months = Fin 0, weeks = Fin 0, days = Fin 0, hours = Fin 0,
              minutes = Fin 0, seconds = Fin 0, milliseconds = Fin 0, totalDays = None,
              isComplete = True, progress = Num (Fin 100) \<rparr>, e)
         else
           (let seconds' = num_floor (num_rem (num_div diff (Fin 1000)) (Fin 60));
                minutes' = num_floor (num_rem (num_div diff (Fin (1000 * 60))) (Fin 60));
                hours' = num_floor (num_rem (num_div diff (Fin (1000 * 60 * 60))) (Fin 24));
                totalDays' = num_floor (num_div diff (Fin (1000 * 60 * 60 * 24)));
                days' = num_rem totalDays' (Fin 7);
                weeks' = num_rem (num_floor (num_div totalDays' (Fin 7))) (Fin 4);
                months' = num_floor (num_div totalDays' (Fin 30));
                milliseconds' = num_rem diff (Fin 1000);
                yearStart = newDate env
                  (case targetYear e of None \<Rightarrow> getFullYear env (wall clk)
                   | Some y \<Rightarrow> if y \<noteq> 0 then y else getFullYear env (wall clk)) 0 1;
                totalYearDuration = num_sub target (getTime yearStart);
                elapsed = num_sub now (getTime yearStart);
                progress' = num_min (Fin 100)
                  (num_max (Fin 0) (num_mul (num_div elapsed totalYearDuration) (Fin 100)))
            in (\<lparr> total_ms = diff, months = months', weeks = weeks', days = days',
                  hours = hours', minutes = minutes', seconds = seconds',
                  milliseconds = milliseconds', totalDays = Some totalDays',
                  isComplete = False, progress = Str (toFixed2 env progress') \<rparr>, e)))"

subsection \<open>Timers\<close>

text \<open>
  The engine together with what it has registered with the event loop: the interval
  timers that are active (each calls \<open>update\<close>), the animation-frame callbacks that are
  pending (each calls \<open>rafLoop\<close>), the pending timeouts with the wall-clock time at which
  they are due (each is the rollover callback of \<open>update\<close>), and the next fresh handle
  (handles are positive). \<open>ticks\<close> lists the arguments of the calls of \<open>onUpdate\<close>, oldest
  first, and \<open>completions\<close> counts the calls of \<open>onComplete\<close>; the callbacks themselves
  are taken to return normally and not to call the engine.
\<close>

record world =
  eng :: engine
  intervals :: "nat list"
  frames :: "nat list"
  timeouts :: "(nat \<times> int) list"
  nextHandle :: nat
  ticks :: "remaining list"
  completions :: nat

definition newWorld :: "engine \<Rightarrow> world" where
  "newWorld e =
     \<lparr> eng = e, intervals = [], frames = [], timeouts = [], nextHandle = 1,
       ticks = [], completions = 0 \<rparr>"

text \<open>Truthiness of a handle field: \<open>null\<close>, \<open>undefined\<close> and 0 are falsy.\<close>

fun handle_truthy :: "nat option \<Rightarrow> bool" where
  "handle_truthy None = False"
| "handle_truthy (Some h) = (h \<noteq> 0)"

definition stop :: "world \<Rightarrow> world" where
  "stop w =
     (let w1 = (case intervalId (eng w) of
                  Some h \<Rightarrow>
                    if h \<noteq> 0
                    then w\<lparr>intervals := removeAll h (intervals w),
                           eng := (eng w)\<lparr>intervalId := None\<rparr>\<rparr>
                    else w
                | None \<Rightarrow> w)
      in (case rafId (eng w1) of
            Some h \<Rightarrow>
              if h \<noteq> 0
              then w1\<lparr>frames := removeAll h (frames w1),
                      eng := (eng w1)\<lparr>rafId := None\<rparr>\<rparr>
              else w1
          | None \<Rightarrow> w1))"

text \<open>
  \<open>update\<close>: one tick. On completion it stops the engine, calls \<open>onComplete\<close> and, when
  \<open>targetYear < yearRange.end\<close> (false for an undefined \<open>targetYear\<close>), registers the
  rollover callback with a delay of 5000 ms.
\<close>

definition update :: "env \<Rightarrow> clock \<Rightarrow> world \<Rightarrow> world" where
  "update env clk w =
     (let (r, e) = calculateTimeRemaining env clk (eng w);
          w1 = w\<lparr>eng := e, ticks := ticks w @ [r]\<rparr>
      in if isComplete r then
           (let w2 = stop w1;
                w3 = w2\<lparr>completions := completions w2 + 1\<rparr>
            in (case targetYear (eng w3) of
                  Some y \<Rightarrow>
                    if y < yearRange_end (eng w3)
                    then w3\<lparr>timeouts := timeouts w3 @ [(nextHandle w3, wall clk + 5000)],
                            nextHandle := nextHandle w3 + 1\<rparr>
                    else w3
                | None \<Rightarrow> w3))
         else w1)"

definition rafLoop :: "env \<Rightarrow> clock \<Rightarrow> world \<Rightarrow> world" where
  "rafLoop env clk w =
     (let now = getHighPrecisionTime clk (eng w);
          w1 = (if num_le (updateFrequency (eng w)) (Fin (now - lastUpdateTime (eng w)))
                then (let u = update env clk w in u\<lparr>eng := (eng u)\<lparr>lastUpdateTime := now\<rparr>\<rparr>)
                else w)
      in w1\<lparr>frames := frames w1 @ [nextHandle w1],
            eng := (eng w1)\<lparr>rafId := Some (nextHandle w1)\<rparr>,
            nextHandle := nextHandle w1 + 1\<rparr>)"

definition start :: "env \<Rightarrow> clock \<Rightarrow> world \<Rightarrow> world" where
  "start env clk w =
     (let w1 = (if handle_truthy (intervalId (eng w)) then stop w else w);
          w2 = update env clk w1
      in if hasRAF env \<and> num_lt (updateFrequency (eng w2)) (Fin 100)
         then rafLoop env clk w2
         else w2\<lparr>intervals := intervals w2 @ [nextHandle w2],
                 eng := (eng w2)\<lparr>intervalId := Some (nextHandle w2)\<rparr>,
                 nextHandle := nextHandle w2 + 1\<rparr>)"

text \<open>
  The three callbacks the engine hands to the event loop. The event loop runs one only
  while it is registered; a frame callback and a timeout run once, and a timeout not
  before it is due. The rollover callback is
  \<open>() => { this.setBoxingDay(this.targetYear + 1); this.start(); }\<close>; for an undefined
  \<open>targetYear\<close> the argument would be NaN, which is falsy.
\<close>

definition interval_callback :: "env \<Rightarrow> clock \<Rightarrow> nat \<Rightarrow> world \<Rightarrow> world" where
  "interval_callback env clk h w =
     (if h \<in> set (intervals w) then update env clk w else w)"

definition frame_callback :: "env \<Rightarrow> clock \<Rightarrow> nat \<Rightarrow> world \<Rightarrow> world" where
  "frame_callback env clk h w =
     (if h \<in> set (frames w) then rafLoop env clk (w\<lparr>frames := removeAll h (frames w)\<rparr>)
      else w)"

definition rollover :: "env \<Rightarrow> clock \<Rightarrow> world \<Rightarrow> world" where
  "rollover env clk w =
     start env clk
       (w\<lparr>eng := setBoxingDay env clk
                   (case targetYear (eng w) of None \<Rightarrow> None | Some y \<Rightarrow> Some (y + 1))
                   (eng w)\<rparr>)"

definition timeout_callback :: "env \<Rightarrow> clock \<Rightarrow> nat \<Rightarrow> world \<Rightarrow> world" where
  "timeout_callback env clk h w =
     (case map_of (timeouts w) h of
        None \<Rightarrow> w
      | Some due \<Rightarrow>
          if due \<le> wall clk
          then rollover env clk (w\<lparr>timeouts := filter (\<lambda>p. fst p \<noteq> h) (timeouts w)\<rparr>)
          else w)"

subsection \<open>Occurrences and readable time\<close>

record boxing_day =
  year :: int
  date :: date
  dayOfWeek :: string
  formatted :: string

definition getBoxingDayDate :: "env \<Rightarrow> int \<Rightarrow> date" where
  "getBoxingDayDate env y = newDate env y 11 26"

text \<open>The loop of \<open>getAllBoxingDays\<close>, from the year \<open>y\<close> up to \<open>hi\<close> inclusive.\<close>

function getAllBoxingDays_from :: "env \<Rightarrow> int \<Rightarrow> int \<Rightarrow> boxing_day list" where
  "getAllBoxingDays_from env y hi =
     (if y \<le> hi
      then (let d = getBoxingDayDate env y
            in \<lparr> year = y, date = d,
                 dayOfWeek = toLocaleDateString env d WeekdayLong,
                 formatted = toLocaleDateString env d FullLong \<rparr>)
           # getAllBoxingDays_from env (y + 1) hi
      else [])"
  by pat_completeness auto
termination
  by (relation "measure (\<lambda>(env, y, hi). nat (hi + 1 - y))") auto

declare getAllBoxingDays_from.simps [simp del]

definition getAllBoxingDays :: "env \<Rightarrow> engine \<Rightarrow> boxing_day list" where
  "getAllBoxingDays env e =
     getAllBoxingDays_from env (yearRange_start e) (yearRange_end e)"

text \<open>\<open>parts.join(', ')\<close>.\<close>

fun join :: "string \<Rightarrow> string list \<Rightarrow> string" where
  "join sep [] = []"
| "join sep [p] = p"
| "join sep (p # q # ps) = p @ sep @ join sep (q # ps)"

text \<open>One \<open>if (r.unit > 0) parts.push(...)\<close> line of \<open>getReadableTime\<close>.\<close>

definition part :: "env \<Rightarrow> number \<Rightarrow> string \<Rightarrow> string list" where
  "part env v unit =
     (if num_lt (Fin 0) v
      then [ToString env v @ '' '' @ unit @ (if v \<noteq> Fin 1 then ''s'' else '''')]
      else [])"

text \<open>
  \<open>getReadableTime(remaining = null)\<close>; without an argument it calls
  \<open>calculateTimeRemaining\<close>, so the engine is returned too.
\<close>

definition getReadableTime ::
    "env \<Rightarrow> clock \<Rightarrow> remaining option \<Rightarrow> engine \<Rightarrow> string \<times> engine" where
  "getReadableTime env clk given e =
     (let (r, e') = (case given of None \<Rightarrow> calculateTimeRemaining env clk e
                     | Some r \<Rightarrow> (r, e))
      in if isComplete r then (''It's Boxing Day!'', e')
         else (join '', ''
                 (part env (months r) ''month'' @ part env (weeks r) ''week''
                  @ part env (days r) ''day'' @ part env (hours r) ''hour''
                  @ part env (minutes r) ''minute'' @ part env (seconds r) ''second''), e'))"

subsection \<open>An example runtime\<close>

text \<open>
  A runtime six hours east of UTC with both optional browser interfaces, whose date parser
  knows two local date-times and whose formatters print nothing; and the local midnights
  used in the examples below, as time values.
\<close>

definition example_parse :: "string \<Rightarrow> date" where
  "example_parse s =
     (if s = ''2026-12-26T00:00:00'' then Some 1798221600000
      else if s = ''2026-11-01T00:00:00'' then Some 1793469600000
      else None)"

definition example_env :: env where
  "example_env =
     \<lparr> tza = 21600000, hasPerformance = True, hasRAF = True, parseDate = example_parse,
       toLocaleDateString = (\<lambda>d f. ''''), numberToString = (\<lambda>x. '''') \<rparr>"

text \<open>The time value of local midnight on day \<open>d\<close> of month \<open>m\<close> of year \<open>y\<close>.\<close>

definition localMidnight :: "env \<Rightarrow> int \<Rightarrow> int \<Rightarrow> int \<Rightarrow> int" where
  "localMidnight env y m d = UTC env (MakeDate (MakeDay y m d) 0)"

subsection \<open>The shape of a \<open>toFixed(2)\<close> string\<close>

definition is_digit :: "char \<Rightarrow> bool" where
  "is_digit c = (c \<in> set ''0123456789'')"

text \<open>
  A decimal with exactly two fraction digits: digits (at least one), a point, two digits.
\<close>

definition two_fraction_digits :: "string \<Rightarrow> bool" where
  "two_fraction_digits s =
     (let k = length s
      in 4 \<le> k \<and> s ! (k - 3) = CHR ''.'' \<and> list_all is_digit (take (k - 3) s)
         \<and> list_all is_digit (drop (k - 2) s))"

section \<open>Binary64 arithmetic\<close>

text \<open>
  The runtime's numbers are IEEE-754 binary64: the result of \<open>-\<close>, \<open>/\<close> and \<open>*\<close> is the exact
  result rounded to the nearest number with a 53-bit significand, ties to the even
  significand; below \<open>2^-1022\<close> the spacing stays \<open>2^-1074\<close>, and a result that rounds to
  \<open>2^1024\<close> or more is an infinity. \<open>exponent a\<close> is the \<open>e\<close> with \<open>2^e \<le> a < 2^(e+1)\<close>, for
  a positive \<open>a\<close>.
\<close>

function bitlen :: "int \<Rightarrow> nat" where
  "bitlen n = (if n \<le> 0 then 0 else Suc (bitlen (n div 2)))"
  by pat_completeness auto
termination
  by (relation "measure nat") auto

declare bitlen.simps [simp del]

definition exponent :: "real \<Rightarrow> int" where
  "exponent a =
     (if 1 \<le> a then int (bitlen \<lfloor>a\<rfloor>) - 1
      else - int (bitlen (\<lceil>1 / a\<rceil> - 1)))"

definition roundHalfEven :: "real \<Rightarrow> int" where
  "roundHalfEven y =
     (let f = \<lfloor>y\<rfloor>; d = y - of_int f
      in if d < 1 / 2 then f else if 1 / 2 < d then f + 1
         else if even f then f else f + 1)"

definition round64 :: "real \<Rightarrow> number" where
  "round64 x =
     (if x = 0 then Fin 0
      else
        (let a = \<bar>x\<bar>;
             e = max (exponent a) (- 1022);
             u = 2 powi (e - 52);
             r = of_int (roundHalfEven (a / u)) * u
         in if 2 ^ 1024 \<le> r then (if 0 < x then PosInf else NegInf)
            else Fin (if 0 < x then r else - r)))"

text \<open>The three operations on binary64 numbers.\<close>

fun num_sub64 :: "number \<Rightarrow> number \<Rightarrow> number" where
  "num_sub64 (Fin a) (Fin b) = round64 (a - b)"
| "num_sub64 x y = num_sub x y"

fun num_div64 :: "number \<Rightarrow> number \<Rightarrow> number" where
  "num_div64 (Fin a) (Fin b) = (if b = 0 then num_div (Fin a) (Fin b) else round64 (a / b))"
| "num_div64 x y = num_div x y"

fun num_mul64 :: "number \<Rightarrow> number \<Rightarrow> number" where
  "num_mul64 (Fin a) (Fin b) = round64 (a * b)"
| "num_mul64 x y = num_mul x y"

text \<open>
  \<open>calculateTimeRemaining\<close> on binary64 numbers: the method as above, with every
  subtraction, division and multiplication of the source rounded. (The products of
  constants \<open>1000 * 60\<close>, \<open>1000 * 60 * 60\<close>, \<open>1000 * 60 * 60 * 24\<close> are integers, and \<open>%\<close> and
  \<open>Math.floor\<close> are exact in binary64.)
\<close>

definition calculateTimeRemaining64 :: "env \<Rightarrow> clock \<Rightarrow> engine \<Rightarrow> remaining \<times> engine" where
  "calculateTimeRemaining64 env clk e0 =
     (let e = (if targetDate e0 = None then setBoxingDay env clk None e0 else e0);
          now = Fin (getHighPrecisionTime clk e);
          target = (case targetDate e of None \<Rightarrow> NaN | Some d \<Rightarrow> getTime d);
          diff = num_sub64 target now
      in if num_le diff (Fin 0) then
           (\<lparr> total_ms = Fin 0, months = Fin 0, weeks = Fin 0, days = Fin 0, hours = Fin 0,
              minutes = Fin 0, seconds = Fin 0, milliseconds = Fin 0, totalDays = None,
              isComplete = True, progress = Num (Fin 100) \<rparr>, e)
         else
           (let seconds' = num_floor (num_rem (num_div64 diff (Fin 1000)) (Fin 60));
                minutes' = num_floor (num_rem (num_div64 diff (Fin (1000 * 60))) (Fin 60));
                hours' = num_floor (num_rem (num_div64 diff (Fin (1000 * 60 * 60))) (Fin 24));
                totalDays' = num_floor (num_div64 diff (Fin (1000 * 60 * 60 * 24)));
                days' = num_rem totalDays' (Fin 7);
                weeks' = num_rem (num_floor (num_div64 totalDays' (Fin 7))) (Fin 4);
                months' = num_floor (num_div64 totalDays' (Fin 30));
                milliseconds' = num_rem diff (Fin 1000);
                yearStart = newDate env
                  (case targetYear e of None \<Rightarrow> getFullYear env (wall clk)
                   | Some y \<Rightarrow> if y \<noteq> 0 then y else getFullYear env (wall clk)) 0 1;
                totalYearDuration = num_sub64 target (getTime yearStart);
                elapsed = num_sub64 now (getTime yearStart);
                progress' = num_min (Fin 100)
                  (num_max (Fin 0) (num_mul64 (num_div64 elapsed totalYearDuration) (Fin 100)))
            in (\<lparr> total_ms = diff, months = months', weeks = weeks', days = days',
                  hours = hours', minutes = minutes', seconds = seconds',
                  milliseconds = milliseconds', totalDays = Some totalDays',
                  isComplete = False, progress = Str (toFixed2 env progress') \<rparr>, e)))"

section \<open>Arithmetic of the unit fields\<close>

lemma trunc_nonneg: "0 \<le> x \<Longrightarrow> trunc x = \<lfloor>x\<rfloor>"
  by (simp add: trunc_def)

lemma floor_rem:
  assumes "0 \<le> q" and "0 < k"
  shows "num_floor (num_rem (Fin q) (Fin (of_int k))) = Fin (of_int (\<lfloor>q\<rfloor> mod k))"
proof -
  have t: "trunc (q / of_int k) = \<lfloor>q\<rfloor> div k"
    using assms by (simp add: trunc_nonneg floor_divide_real_eq_div)
  have "\<lfloor>q - of_int k * of_int (\<lfloor>q\<rfloor> div k)\<rfloor> = \<lfloor>q\<rfloor> - k * (\<lfloor>q\<rfloor> div k)"
    using floor_diff_of_int [of q "k * (\<lfloor>q\<rfloor> div k)"] by simp
  also have "\<dots> = \<lfloor>q\<rfloor> mod k"
    by (simp add: minus_mult_div_eq_mod)
  finally show ?thesis using assms t by simp
qed

lemma rem_int:
  assumes "0 \<le> n" and "0 < k"
  shows "num_rem (Fin (of_int n)) (Fin (of_int k)) = Fin (of_int (n mod k))"
proof -
  have "trunc (of_int n / of_int k) = n div k"
    using assms by (simp add: trunc_nonneg floor_divide_of_int_eq)
  moreover have "n - k * (n div k) = n mod k"
    by (simp add: minus_mult_div_eq_mod)
  ultimately show ?thesis using assms
    by (simp flip: of_int_mult of_int_diff)
qed

lemma floor_div_int:
  assumes "k \<noteq> 0"
  shows "num_floor (num_div (Fin (of_int n)) (Fin (of_int k))) = Fin (of_int (n div k))"
  using assms by (simp add: floor_divide_of_int_eq)

lemma unit_seconds:
  assumes "0 < d"
  shows "num_floor (num_rem (num_div (Fin d) (Fin 1000)) (Fin 60))
         = Fin (of_int (\<lfloor>d / 1000\<rfloor> mod 60))"
  using assms floor_rem [of "d / 1000" 60] by simp

lemma unit_minutes:
  assumes "0 < d"
  shows "num_floor (num_rem (num_div (Fin d) (Fin 60000)) (Fin 60))
         = Fin (of_int (\<lfloor>d / 60000\<rfloor> mod 60))"
  using assms floor_rem [of "d / 60000" 60] by simp

lemma unit_hours:
  assumes "0 < d"
  shows "num_floor (num_rem (num_div (Fin d) (Fin 3600000)) (Fin 24))
         = Fin (of_int (\<lfloor>d / 3600000\<rfloor> mod 24))"
  using assms floor_rem [of "d / 3600000" 24] by simp

lemma unit_totalDays:
  "num_floor (num_div (Fin d) (Fin 86400000)) = Fin (of_int \<lfloor>d / 86400000\<rfloor>)"
  by simp

lemma unit_days:
  assumes "0 \<le> n"
  shows "num_rem (Fin (of_int n)) (Fin 7) = Fin (of_int (n mod 7))"
  using assms rem_int [of n 7] by simp

lemma unit_weeks:
  assumes "0 \<le> n"
  shows "num_rem (num_floor (num_div (Fin (of_int n)) (Fin 7))) (Fin 4)
         = Fin (of_int ((n div 7) mod 4))"
proof -
  have "num_floor (num_div (Fin (of_int n)) (Fin 7)) = Fin (of_int (n div 7))"
    using floor_div_int [of 7 n] by simp
  moreover have "0 \<le> n div 7" using assms by simp
  ultimately show ?thesis using rem_int [of "n div 7" 4] by simp
qed

lemma unit_months:
  "num_floor (num_div (Fin (of_int n)) (Fin 30)) = Fin (of_int (n div 30))"
  using floor_div_int [of 30 n] by simp

lemma unit_milliseconds:
  assumes "0 < d"
  shows "num_rem (Fin d) (Fin 1000) = Fin (d - 1000 * of_int \<lfloor>d / 1000\<rfloor>)"
  using assms by (simp add: trunc_nonneg)

section \<open>Rounding to binary64\<close>

lemma bitlen_positive:
  assumes "0 < n"
  shows "(2::int) ^ (bitlen n - 1) \<le> n \<and> n < 2 ^ bitlen n \<and> 0 < bitlen n"
  using assms
proof (induction n rule: bitlen.induct)
  case (1 n)
  show ?case
  proof (cases "n = 1")
    case True
    have "bitlen (1::int) = Suc (bitlen 0)" by (subst bitlen.simps) simp
    also have "bitlen (0::int) = 0" by (subst bitlen.simps) simp
    finally show ?thesis using True by simp
  next
    case False
    then have h: "0 < n div 2" using "1.prems" by simp
    have b: "bitlen n = Suc (bitlen (n div 2))"
      using "1.prems" by (subst bitlen.simps) simp
    have ih: "2 ^ (bitlen (n div 2) - 1) \<le> n div 2 \<and> n div 2 < 2 ^ bitlen (n div 2)
        \<and> 0 < bitlen (n div 2)"
      using "1.IH" "1.prems" h by simp
    then obtain k where k: "bitlen (n div 2) = Suc k" by (cases "bitlen (n div 2)") auto
    have lo: "(2::int) ^ Suc k \<le> n"
    proof -
      have "2 * 2 ^ k \<le> 2 * (n div 2)" using ih k by simp
      also have "\<dots> \<le> n" by simp
      finally show ?thesis by simp
    qed
    have hi: "n < 2 ^ Suc (Suc k)"
    proof -
      have "n div 2 + 1 \<le> 2 ^ Suc k" using ih k by simp
      then have "2 * (n div 2) + 2 \<le> 2 * 2 ^ Suc k" by simp
      moreover have "n < 2 * (n div 2) + 2" by linarith
      ultimately show ?thesis by simp
    qed
    show ?thesis using lo hi by (simp add: b k)
  qed
qed

text \<open>The exponent of a positive number brackets it between two powers of two.\<close>

lemma exponent_bounds:
  assumes "0 < a"
  shows "2 powi exponent a \<le> a \<and> a < 2 powi (exponent a + 1)"
proof (cases "1 \<le> a")
  case True
  define n where "n = \<lfloor>a\<rfloor>"
  have n: "0 < n" using True by (simp add: n_def)
  obtain k where k: "bitlen n = Suc k" using bitlen_positive [OF n] by (cases "bitlen n") auto
  have b: "2 ^ k \<le> n" "n < 2 ^ Suc k" using bitlen_positive [OF n] by (simp_all add: k)
  have e: "exponent a = int k" using True by (simp add: exponent_def n_def [symmetric] k)
  have "(2::real) ^ k \<le> of_int n" using b(1) by (metis of_int_le_iff of_int_numeral of_int_power)
  also have "\<dots> \<le> a" by (simp add: n_def)
  finally have lo: "(2::real) ^ k \<le> a" .
  have "n + 1 \<le> 2 ^ Suc k" using b(2) by simp
  then have "of_int (n + 1) \<le> (2::real) ^ Suc k"
    by (metis of_int_le_iff of_int_numeral of_int_power)
  moreover have "a < of_int (n + 1)" by (simp add: n_def)
  ultimately have hi: "a < (2::real) ^ Suc k" by linarith
  have p: "(2::real) powi (int k + 1) = 2 ^ Suc k"
    using power_int_of_nat [of "2::real" "Suc k"] by (simp add: add.commute)
  show ?thesis using lo hi by (simp add: e p del: power_Suc)
next
  case False
  define y where "y = 1 / a"
  define m where "m = \<lceil>y\<rceil>"
  have y: "1 < y" using False assms by (simp add: y_def)
  have m: "0 < m - 1" using y by (simp add: m_def less_ceiling_iff)
  obtain k where k: "bitlen (m - 1) = Suc k"
    using bitlen_positive [OF m] by (cases "bitlen (m - 1)") auto
  have b: "2 ^ k \<le> m - 1" "m - 1 < 2 ^ Suc k" using bitlen_positive [OF m] by (simp_all add: k)
  have e: "exponent a = - int (Suc k)"
    using False by (simp add: exponent_def y_def [symmetric] m_def [symmetric] k)
  have "m \<le> 2 ^ Suc k" using b(2) by simp
  then have "of_int m \<le> (2::real) ^ Suc k"
    by (metis of_int_le_iff of_int_numeral of_int_power)
  moreover have "y \<le> of_int m" by (simp add: m_def)
  ultimately have y_hi: "y \<le> 2 ^ Suc k" by linarith
  have "(2::real) ^ k \<le> of_int (m - 1)"
    using b(1) by (metis of_int_le_iff of_int_numeral of_int_power)
  moreover have "of_int (m - 1) < y" by (simp add: m_def) linarith
  ultimately have y_lo: "2 ^ k < y" by linarith
  have lo: "1 / 2 ^ Suc k \<le> a"
  proof -
    have "1 / 2 ^ Suc k \<le> 1 / y" using y_hi y by (intro divide_left_mono) simp_all
    then show ?thesis using assms by (simp add: y_def)
  qed
  have hi: "a < 1 / 2 ^ k"
  proof -
    have "0 < y * 2 ^ k" using y by simp
    then have "1 / y < 1 / 2 ^ k" using y_lo by (intro divide_strict_left_mono) simp_all
    then show ?thesis using assms by (simp add: y_def)
  qed
  have p1: "(2::real) powi (- int (Suc k)) = 1 / 2 ^ Suc k"
    using power_int_minus_divide [of "2::real" "int (Suc k)"] by (simp del: power_Suc of_nat_Suc)
  have p2: "(2::real) powi (- int (Suc k) + 1) = 1 / 2 ^ k"
  proof -
    have "- int (Suc k) + 1 = - int k" by simp
    then show ?thesis using power_int_minus_divide [of "2::real" "int k"] by simp
  qed
  show ?thesis using lo hi unfolding e p1 p2 by simp
qed

lemma roundHalfEven_lower: "of_int z \<le> y \<Longrightarrow> z \<le> roundHalfEven y"
proof -
  assume "of_int z \<le> y"
  then have "z \<le> \<lfloor>y\<rfloor>" by (simp add: le_floor_iff)
  then show ?thesis by (simp add: roundHalfEven_def Let_def)
qed

lemma roundHalfEven_upper: "y \<le> of_int z \<Longrightarrow> roundHalfEven y \<le> z"
proof -
  assume h: "y \<le> of_int z"
  show ?thesis
  proof (cases "y = of_int z")
    case True
    then show ?thesis by (simp add: roundHalfEven_def Let_def)
  next
    case False
    then have "y < of_int z" using h by simp
    then have "\<lfloor>y\<rfloor> < z" by (simp add: floor_less_iff)
    then show ?thesis by (simp add: roundHalfEven_def Let_def)
  qed
qed

lemma roundHalfEven_below: "y + 1 / 2 < of_int z \<Longrightarrow> roundHalfEven y < z"
proof -
  assume h: "y + 1 / 2 < of_int z"
  define f where "f = \<lfloor>y\<rfloor>"
  have f: "of_int f \<le> y" "y < of_int f + 1" by (simp_all add: f_def)
  have "y < of_int z" using h by linarith
  then have "f < z" by (simp add: floor_less_iff f_def)
  show ?thesis
  proof (cases "y - of_int f < 1 / 2")
    case True
    then show ?thesis using \<open>f < z\<close> by (simp add: roundHalfEven_def Let_def f_def [symmetric])
  next
    case False
    then have "of_int f + 1 / 2 \<le> y" by simp
    then have "real_of_int f + 1 < of_int z" using h by linarith
    then have "real_of_int (f + 1) < of_int z" by simp
    then have "f + 1 < z" by (simp only: of_int_less_iff)
    then show ?thesis using \<open>f < z\<close> by (simp add: roundHalfEven_def Let_def f_def [symmetric])
  qed
qed

lemma powi_add: "(2::real) powi (a + b) = 2 powi a * 2 powi b"
  by (rule power_int_add) simp

lemma powi_nonneg: "0 \<le> n \<Longrightarrow> (2::real) powi n = of_int (2 ^ nat n)"
  by (simp add: power_int_nonneg_exp)

lemma powi_le: "a \<le> b \<Longrightarrow> (2::real) powi a \<le> 2 powi b"
  by (rule power_int_increasing) simp_all

lemma powi_less: "a < b \<Longrightarrow> (2::real) powi a < 2 powi b"
  by (rule power_int_strict_increasing) simp_all

text \<open>
  The quotient of a positive binary64 number below \<open>2^53\<close> by a positive integer, rounded
  to binary64, has the floor of the exact quotient: the rounding never reaches the next
  integer.
\<close>

lemma floor_round64_div:
  fixes M q c :: int
  assumes x: "x = of_int M * 2 powi q" and M: "0 < M" "M < 2 ^ 53" and q: "q \<le> 0"
    and c: "0 < c"
  shows "\<exists>r. round64 (x / real_of_int c) = Fin r \<and> \<lfloor>r\<rfloor> = \<lfloor>x / real_of_int c\<rfloor> \<and> 0 \<le> r"
proof -
  define y where "y = x / real_of_int c"
  define e0 where "e0 = exponent y"
  define e where "e = max e0 (- 1022)"
  define u where "u = (2::real) powi (e - 52)"
  define m where "m = roundHalfEven (y / u)"
  define r where "r = of_int m * u"
  define j where "j = \<lfloor>y\<rfloor>"
  have cpos: "0 < real_of_int c" using c by simp
  have xpos: "0 < x" using M(1) by (simp add: x)
  have ypos: "0 < y" using xpos cpos by (simp add: y_def)
  have upos: "0 < u" by (simp add: u_def)
  have x53: "x < 2 ^ 53 * 2 powi q"
  proof -
    have "real_of_int M < of_int (2 ^ 53)" using M(2) by (simp only: of_int_less_iff)
    then show ?thesis by (simp add: x)
  qed
  have q1: "(2::real) powi q \<le> 1" using powi_le [OF q] by simp
  have xlt: "x < 2 ^ 53" using x53 q1 by (smt (verit) mult_left_le zero_less_power)
  have c1: "1 \<le> real_of_int c" using c by simp
  have yx: "y \<le> x"
  proof -
    have "x / real_of_int c \<le> x / 1" using c1 xpos by (intro divide_left_mono) simp_all
    then show ?thesis by (simp add: y_def)
  qed
  have ylt: "y < 2 ^ 53" using yx xlt by linarith
  have eb: "2 powi e0 \<le> y" "y < 2 powi (e0 + 1)"
    using exponent_bounds [OF ypos] by (simp_all add: e0_def)
  have e052: "e0 \<le> 52"
  proof (rule ccontr)
    assume "\<not> e0 \<le> 52"
    then have "53 \<le> e0" by simp
    then have "(2::real) powi 53 \<le> 2 powi e0" by (rule powi_le)
    then show False using eb(1) ylt by simp
  qed
  have e52: "e \<le> 52" using e052 by (simp add: e_def)
  define n where "n = nat (52 - e)"
  have inv: "1 / u = of_int (2 ^ n)"
  proof -
    have "u * 2 powi (52 - e) = 2 powi ((e - 52) + (52 - e))"
      unfolding u_def by (rule powi_add [symmetric])
    then have "u * 2 powi (52 - e) = 1" by simp
    moreover have "(2::real) powi (52 - e) = of_int (2 ^ n)"
      unfolding n_def using e52 by (intro powi_nonneg) simp
    ultimately show ?thesis using upos by (simp add: field_simps)
  qed
  have scale: "of_int (i * 2 ^ n) = real_of_int i / u" for i
  proof -
    have "real_of_int i / u = real_of_int i * (1 / u)" by simp
    also have "\<dots> = real_of_int i * of_int (2 ^ n)" by (simp only: inv)
    finally show ?thesis by simp
  qed
  have j: "real_of_int j \<le> y" "y < real_of_int j + 1" by (simp_all add: j_def)
  have j0: "0 \<le> j" using ypos by (simp add: j_def)
  have lower: "real_of_int j \<le> r"
  proof -
    have "real_of_int j / u \<le> y / u" using j(1) upos by (simp add: divide_right_mono)
    then have "of_int (j * 2 ^ n) \<le> y / u" by (simp only: scale)
    then have "j * 2 ^ n \<le> m" unfolding m_def by (rule roundHalfEven_lower)
    then have "real_of_int (j * 2 ^ n) \<le> of_int m" by (simp only: of_int_le_iff)
    then have "real_of_int j / u \<le> of_int m" by (simp only: scale)
    then show ?thesis using upos by (simp add: r_def field_simps)
  qed
  have gap: "y + u / 2 < real_of_int j + 1"
  proof (cases "- 1022 \<le> e0")
    case True
    then have ee: "e = e0" by (simp add: e_def)
    define P where "P = (2::int) ^ nat (- q)"
    have P: "(2::real) powi (- q) = of_int P"
      unfolding P_def using q by (intro powi_nonneg) simp
    have Pq: "real_of_int P * 2 powi q = 1"
    proof -
      have "(2::real) powi (- q) * 2 powi q = 2 powi (- q + q)" by (rule powi_add [symmetric])
      then show ?thesis by (simp add: P)
    qed
    define k where "k = j + 1"
    have "x < real_of_int (k * c)"
    proof -
      have "y * real_of_int c < (real_of_int j + 1) * real_of_int c"
        using j(2) cpos by (simp add: mult_strict_right_mono)
      then show ?thesis using cpos by (simp add: y_def k_def)
    qed
    then have "x * of_int P < real_of_int (k * c) * of_int P"
      using P zero_less_power_int [of "2::real" "- q"] by (simp add: mult_strict_right_mono)
    moreover have "x * of_int P = of_int M"
      using Pq by (simp add: x mult.assoc mult.commute [of "2 powi q"])
    ultimately have "real_of_int M < of_int (k * c * P)" by simp
    then have "M < k * c * P" by (simp only: of_int_less_iff)
    then have "M + 1 \<le> k * c * P" by simp
    then have "real_of_int (M + 1) \<le> of_int (k * c * P)" by (simp only: of_int_le_iff)
    then have "(real_of_int M + 1) * 2 powi q \<le> real_of_int (k * c) * (of_int P * 2 powi q)"
      using zero_less_power_int [of "2::real" q]
      by (simp add: mult_right_mono mult.assoc [symmetric])
    then have step: "x + 2 powi q \<le> real_of_int (k * c)"
      by (simp add: Pq x distrib_right)
    have "real_of_int c * 2 powi e0 \<le> real_of_int c * y" using eb(1) cpos by (simp add: mult_left_mono)
    also have "\<dots> = x" using cpos by (simp add: y_def)
    finally have "real_of_int c * 2 powi e0 < 2 ^ 53 * 2 powi q" using x53 by linarith
    moreover have "(2::real) powi e0 = 2 powi (e0 - 53) * 2 ^ 53"
    proof -
      have "(2::real) powi ((e0 - 53) + 53) = 2 powi (e0 - 53) * 2 powi 53" by (rule powi_add)
      then show ?thesis by simp
    qed
    ultimately have "real_of_int c * 2 powi (e0 - 53) * 2 ^ 53 < 2 powi q * 2 ^ 53"
      by (simp add: mult.assoc mult.commute)
    then have small: "real_of_int c * 2 powi (e0 - 53) < 2 powi q" by simp
    have half: "u / 2 = 2 powi (e0 - 53)"
    proof -
      have "(2::real) powi ((e0 - 53) + 1) = 2 powi (e0 - 53) * 2 powi 1" by (rule powi_add)
      then show ?thesis by (simp add: u_def ee)
    qed
    have "real_of_int c * (y + u / 2) = x + real_of_int c * 2 powi (e0 - 53)"
      using cpos by (simp add: y_def half distrib_left)
    also have "\<dots> < x + 2 powi q" using small by simp
    also have "\<dots> \<le> real_of_int (k * c)" by (rule step)
    finally have "real_of_int c * (y + u / 2) < real_of_int c * (real_of_int j + 1)"
      by (simp add: k_def mult.commute)
    then show ?thesis using cpos by simp
  next
    case False
    then have ee: "e = - 1022" and lt: "e0 + 1 \<le> - 1022" by (simp_all add: e_def)
    have "y < 2 powi (- 1022)" using eb(2) powi_le [OF lt] by linarith
    moreover have "(2::real) powi (- 1022) \<le> 2 powi (- 1)" by (rule powi_le) simp
    ultimately have y2: "y < 1 / 2" by simp
    have "u \<le> 2 powi (- 1)" unfolding u_def ee by (rule powi_le) simp
    then have "u / 2 \<le> 1 / 4" by simp
    then show ?thesis using y2 j0 by linarith
  qed
  have upper: "r < real_of_int j + 1"
  proof -
    have "y / u + 1 / 2 < (real_of_int j + 1) / u"
    proof -
      have "(y + u / 2) / u < (real_of_int j + 1) / u"
        using gap upos by (simp add: divide_strict_right_mono)
      then show ?thesis using upos by (simp add: add_divide_distrib)
    qed
    then have "y / u + 1 / 2 < of_int ((j + 1) * 2 ^ n)"
      using scale [of "j + 1"] by simp
    then have "m < (j + 1) * 2 ^ n" unfolding m_def by (rule roundHalfEven_below)
    then have "real_of_int m < of_int ((j + 1) * 2 ^ n)" by (simp only: of_int_less_iff)
    then have "real_of_int m < (real_of_int j + 1) / u" using scale [of "j + 1"] by simp
    then show ?thesis using upos by (simp add: r_def field_simps)
  qed
  have fl: "\<lfloor>r\<rfloor> = j" using lower upper by (simp add: floor_eq_iff)
  have r0: "0 \<le> r" using lower j0 by linarith
  have "r < 2 ^ 53 + 1" using upper j(1) ylt by linarith
  also have "\<dots> < (2::real) ^ 1024" by simp
  finally have nov: "\<not> 2 ^ 1024 \<le> r" by simp
  have "round64 y = Fin r"
    using ypos nov
    by (simp add: round64_def Let_def e0_def [symmetric] e_def [symmetric] u_def [symmetric]
        m_def [symmetric] r_def [symmetric])
  then show ?thesis using fl r0 by (simp add: y_def j_def)
qed

lemma roundHalfEven_of_int: "roundHalfEven (of_int z) = z"
  by (simp add: roundHalfEven_def Let_def)

text \<open>An integer below \<open>2^53\<close> in magnitude is a binary64 number: rounding leaves it.\<close>

lemma round64_of_int:
  assumes "\<bar>n\<bar> < 2 ^ 53"
  shows "round64 (of_int n) = Fin (of_int n)"
proof (cases "n = 0")
  case True
  then show ?thesis by (simp add: round64_def)
next
  case False
  define a where "a = \<bar>real_of_int n\<bar>"
  define e0 where "e0 = exponent a"
  define e where "e = max e0 (- 1022)"
  define u where "u = (2::real) powi (e - 52)"
  have a: "a = of_int \<bar>n\<bar>" by (simp add: a_def)
  have apos: "0 < a" using False by (simp add: a_def)
  have a1: "1 \<le> a"
  proof -
    have "1 \<le> \<bar>n\<bar>" using False by simp
    then have "real_of_int 1 \<le> of_int \<bar>n\<bar>" by (simp only: of_int_le_iff)
    then show ?thesis by (simp add: a)
  qed
  have a53: "a < 2 ^ 53"
  proof -
    have "real_of_int \<bar>n\<bar> < of_int (2 ^ 53)" using assms by (simp only: of_int_less_iff)
    then show ?thesis by (simp add: a)
  qed
  have eb: "2 powi e0 \<le> a" "a < 2 powi (e0 + 1)"
    using exponent_bounds [OF apos] by (simp_all add: e0_def)
  have e052: "e0 \<le> 52"
  proof (rule ccontr)
    assume "\<not> e0 \<le> 52"
    then have "53 \<le> e0" by simp
    then have "(2::real) powi 53 \<le> 2 powi e0" by (rule powi_le)
    then show False using eb(1) a53 by simp
  qed
  have e00: "0 \<le> e0"
  proof (rule ccontr)
    assume "\<not> 0 \<le> e0"
    then have "e0 + 1 \<le> 0" by simp
    then have "(2::real) powi (e0 + 1) \<le> 2 powi 0" by (rule powi_le)
    then show False using eb(2) a1 by simp
  qed
  have ee: "e = e0" using e00 by (simp add: e_def)
  define k where "k = nat (52 - e)"
  have upos: "0 < u" by (simp add: u_def)
  have inv: "1 / u = of_int (2 ^ k)"
  proof -
    have "u * 2 powi (52 - e) = 2 powi ((e - 52) + (52 - e))"
      unfolding u_def by (rule powi_add [symmetric])
    then have "u * 2 powi (52 - e) = 1" by simp
    moreover have "(2::real) powi (52 - e) = of_int (2 ^ k)"
      unfolding k_def using e052 ee by (intro powi_nonneg) simp
    ultimately show ?thesis using upos by (simp add: field_simps)
  qed
  have au: "a / u = of_int (\<bar>n\<bar> * 2 ^ k)"
  proof -
    have "a / u = a * (1 / u)" by simp
    also have "\<dots> = of_int \<bar>n\<bar> * of_int (2 ^ k)" by (simp only: inv a)
    finally show ?thesis by simp
  qed
  have r: "of_int (roundHalfEven (a / u)) * u = a"
  proof -
    have "of_int (roundHalfEven (a / u)) * u = (a / u) * u"
      by (simp only: au roundHalfEven_of_int)
    then show ?thesis using upos by simp
  qed
  have nov: "\<not> 2 ^ 1024 \<le> a"
  proof -
    have "a < (2::real) ^ 1024" using a53 by (rule less_trans) simp
    then show ?thesis by simp
  qed
  have "round64 (of_int n) = Fin (if 0 < real_of_int n then a else - a)"
    using False nov
    by (simp add: round64_def Let_def a_def [symmetric] e0_def [symmetric] e_def [symmetric]
        u_def [symmetric] r)
  then show ?thesis by (simp add: a_def)
qed

text \<open>
  A positive binary64 number below \<open>2^53\<close> is an integer below \<open>2^53\<close> times a power of
  two with an exponent that is not positive.
\<close>

lemma round64_dyadic:
  assumes "round64 x = Fin r" and "0 < r" and "r < 2 ^ 53"
  shows "\<exists>M q. r = of_int M * 2 powi q \<and> 0 < M \<and> M < 2 ^ 53 \<and> q \<le> (0::int)"
proof -
  define a where "a = \<bar>x\<bar>"
  define e0 where "e0 = exponent a"
  define e where "e = max e0 (- 1022)"
  define u where "u = (2::real) powi (e - 52)"
  define m where "m = roundHalfEven (a / u)"
  have x0: "x \<noteq> 0" using assms(1,2) by (auto simp: round64_def)
  have apos: "0 < a" using x0 by (simp add: a_def)
  have upos: "0 < u" by (simp add: u_def)
  have m0: "0 \<le> m"
  proof -
    have "real_of_int 0 \<le> a / u" using apos upos by simp
    then show ?thesis unfolding m_def by (rule roundHalfEven_lower)
  qed
  have form: "round64 x = (if 2 ^ 1024 \<le> of_int m * u then (if 0 < x then PosInf else NegInf)
      else Fin (if 0 < x then of_int m * u else - (of_int m * u)))"
    using x0
    by (simp add: round64_def Let_def a_def [symmetric] e0_def [symmetric] e_def [symmetric]
        u_def [symmetric] m_def [symmetric])
  have r: "r = of_int m * u"
  proof -
    have mu: "0 \<le> of_int m * u" using m0 upos by simp
    show ?thesis
    proof (cases "0 < x")
      case True
      then show ?thesis using assms(1) form by (auto split: if_splits)
    next
      case False
      then have "r = - (of_int m * u)" using assms(1) form by (auto split: if_splits)
      then show ?thesis using mu assms(2) by linarith
    qed
  qed
  have mpos: "0 < m"
  proof (rule ccontr)
    assume "\<not> 0 < m"
    then have "m = 0" using m0 by simp
    then show False using r assms(2) by simp
  qed
  have eb: "a < 2 powi (e0 + 1)" using exponent_bounds [OF apos] by (simp add: e0_def)
  have "(2::real) powi (e0 + 1) \<le> 2 powi (e + 1)" by (rule powi_le) (simp add: e_def)
  then have alt: "a < 2 powi (e + 1)" using eb by linarith
  have "e + 1 = (e - 52) + 53" by simp
  then have "(2::real) powi (e + 1) = 2 powi ((e - 52) + 53)" by (simp only:)
  also have "\<dots> = u * 2 powi 53" unfolding u_def by (rule powi_add)
  finally have "a < u * 2 ^ 53" using alt by simp
  then have "a / u < 2 ^ 53" using upos by (simp add: field_simps)
  then have "a / u \<le> of_int (2 ^ 53)" by simp
  then have m53: "m \<le> 2 ^ 53" unfolding m_def by (rule roundHalfEven_upper)
  show ?thesis
  proof (cases "e - 52 \<le> 0")
    case True
    show ?thesis
    proof (cases "m = 2 ^ 53")
      case False
      then have "m < 2 ^ 53" using m53 by simp
      then show ?thesis using r mpos True unfolding u_def by blast
    next
      case m: True
      have "r = 2 ^ 53 * u" using r m by simp
      then have "u < 1" using assms(3) by simp
      have q: "e - 52 < 0"
      proof (rule ccontr)
        assume "\<not> e - 52 < 0"
        then have "0 \<le> e - 52" by simp
        then have "(2::real) powi 0 \<le> 2 powi (e - 52)" by (rule powi_le)
        then show False using \<open>u < 1\<close> by (simp add: u_def)
      qed
      have "(2::real) powi ((e - 52) + 1) = 2 powi (e - 52) * 2 powi 1" by (rule powi_add)
      then have "2 ^ 52 * 2 powi ((e - 52) + 1) = 2 ^ 53 * u" by (simp add: u_def)
      then have "r = of_int (2 ^ 52) * 2 powi ((e - 52) + 1)"
        using \<open>r = 2 ^ 53 * u\<close> by simp
      moreover have "(0::int) < 2 ^ 52" "(2::int) ^ 52 < 2 ^ 53" "(e - 52) + 1 \<le> 0"
        using q by simp_all
      ultimately show ?thesis by blast
    qed
  next
    case False
    then have "0 \<le> e - 52" by simp
    then have "u = of_int (2 ^ nat (e - 52))" unfolding u_def by (rule powi_nonneg)
    then have ri: "r = of_int (m * 2 ^ nat (e - 52))" using r by simp
    have "real_of_int (m * 2 ^ nat (e - 52)) < of_int (2 ^ 53)" using assms(3) ri by simp
    then have "m * 2 ^ nat (e - 52) < 2 ^ 53" by (simp only: of_int_less_iff)
    moreover have "0 < m * 2 ^ nat (e - 52)" using mpos by simp
    moreover have "r = of_int (m * 2 ^ nat (e - 52)) * 2 powi 0" using ri by simp
    ultimately show ?thesis by blast
  qed
qed

text \<open>The quotients of \<open>calculateTimeRemaining\<close>, computed in binary64.\<close>

lemma floor_div64:
  assumes "round64 x = Fin d" and "0 < d" and "d < 2 ^ 53" and "0 < c"
  shows "\<exists>r. num_div64 (Fin d) (Fin (of_int c)) = Fin r \<and> \<lfloor>r\<rfloor> = \<lfloor>d / of_int c\<rfloor> \<and> 0 \<le> r"
proof -
  from round64_dyadic [OF assms(1,2,3)] obtain M q where
    "d = of_int M * 2 powi q" "0 < M" "M < 2 ^ 53" "q \<le> 0" by blast
  from floor_round64_div [OF this assms(4)] show ?thesis using assms(4) by simp
qed

lemma floor_div64_int:
  assumes "0 \<le> n" and "n < 2 ^ 53" and "0 < c"
  shows "num_floor (num_div64 (Fin (of_int n)) (Fin (of_int c))) = Fin (of_int (n div c))"
proof (cases "n = 0")
  case True
  then show ?thesis using assms(3) by (simp add: round64_def)
next
  case False
  then have "0 < n" using assms(1) by simp
  moreover have "real_of_int n = of_int n * 2 powi 0" by simp
  ultimately obtain r where
    r: "round64 (real_of_int n / real_of_int c) = Fin r" "\<lfloor>r\<rfloor> = \<lfloor>real_of_int n / real_of_int c\<rfloor>"
    using floor_round64_div [of "real_of_int n" n 0 c] assms(2,3) by auto
  show ?thesis using r assms(3) by (simp add: floor_divide_of_int_eq)
qed

lemma unit64_seconds:
  assumes "round64 x = Fin d" and "0 < d" and "d < 2 ^ 53"
  shows "num_floor (num_rem (num_div64 (Fin d) (Fin 1000)) (Fin 60))
         = Fin (of_int (\<lfloor>d / 1000\<rfloor> mod 60))"
proof -
  from floor_div64 [OF assms, of 1000] obtain r where
    r: "num_div64 (Fin d) (Fin 1000) = Fin r" "\<lfloor>r\<rfloor> = \<lfloor>d / 1000\<rfloor>" "0 \<le> r" by auto
  show ?thesis using floor_rem [OF r(3), of 60] by (simp only: r) simp
qed

lemma unit64_minutes:
  assumes "round64 x = Fin d" and "0 < d" and "d < 2 ^ 53"
  shows "num_floor (num_rem (num_div64 (Fin d) (Fin 60000)) (Fin 60))
         = Fin (of_int (\<lfloor>d / 60000\<rfloor> mod 60))"
proof -
  from floor_div64 [OF assms, of 60000] obtain r where
    r: "num_div64 (Fin d) (Fin 60000) = Fin r" "\<lfloor>r\<rfloor> = \<lfloor>d / 60000\<rfloor>" "0 \<le> r" by auto
  show ?thesis using floor_rem [OF r(3), of 60] by (simp only: r) simp
qed

lemma unit64_hours:
  assumes "round64 x = Fin d" and "0 < d" and "d < 2 ^ 53"
  shows "num_floor (num_rem (num_div64 (Fin d) (Fin 3600000)) (Fin 24))
         = Fin (of_int (\<lfloor>d / 3600000\<rfloor> mod 24))"
proof -
  from floor_div64 [OF assms, of 3600000] obtain r where
    r: "num_div64 (Fin d) (Fin 3600000) = Fin r" "\<lfloor>r\<rfloor> = \<lfloor>d / 3600000\<rfloor>" "0 \<le> r" by auto
  show ?thesis using floor_rem [OF r(3), of 24] by (simp only: r) simp
qed

lemma unit64_totalDays:
  assumes "round64 x = Fin d" and "0 < d" and "d < 2 ^ 53"
  shows "num_floor (num_div64 (Fin d) (Fin 86400000)) = Fin (of_int \<lfloor>d / 86400000\<rfloor>)"
proof -
  from floor_div64 [OF assms, of 86400000] obtain r where
    r: "num_div64 (Fin d) (Fin 86400000) = Fin r" "\<lfloor>r\<rfloor> = \<lfloor>d / 86400000\<rfloor>" by auto
  show ?thesis by (simp only: r(1)) (simp add: r(2))
qed

lemma unit64_weeks:
  assumes "0 \<le> n" and "n < 2 ^ 53"
  shows "num_rem (num_floor (num_div64 (Fin (of_int n)) (Fin 7))) (Fin 4)
         = Fin (of_int ((n div 7) mod 4))"
proof -
  have "num_floor (num_div64 (Fin (of_int n)) (Fin 7)) = Fin (of_int (n div 7))"
    using floor_div64_int [OF assms, of 7] by simp
  moreover have "0 \<le> n div 7" using assms(1) by simp
  ultimately show ?thesis using rem_int [of "n div 7" 4] by simp
qed

lemma unit64_months:
  assumes "0 \<le> n" and "n < 2 ^ 53"
  shows "num_floor (num_div64 (Fin (of_int n)) (Fin 30)) = Fin (of_int (n div 30))"
  using floor_div64_int [OF assms, of 30] by simp

text \<open>
  Rounding does not cross an integer below \<open>2^53\<close>, so the difference of line 71 is at
  most the target's time value whenever the clock reading is not negative, and a Date's
  time value is at most \<open>8.64e15 < 2^53\<close>.
\<close>

lemma round64_upper:
  assumes "x \<le> of_int B" and "0 < B" and "B < 2 ^ 53" and "round64 x = Fin r"
  shows "r \<le> of_int B"
proof (cases "x = 0")
  case True
  then show ?thesis using assms(2,4) by (simp add: round64_def)
next
  case x0: False
  define a where "a = \<bar>x\<bar>"
  define e0 where "e0 = exponent a"
  define e where "e = max e0 (- 1022)"
  define u where "u = (2::real) powi (e - 52)"
  define m where "m = roundHalfEven (a / u)"
  have apos: "0 < a" using x0 by (simp add: a_def)
  have upos: "0 < u" by (simp add: u_def)
  have m0: "0 \<le> m"
  proof -
    have "real_of_int 0 \<le> a / u" using apos upos by simp
    then show ?thesis unfolding m_def by (rule roundHalfEven_lower)
  qed
  have mu: "0 \<le> of_int m * u" using m0 upos by simp
  have form: "round64 x = (if 2 ^ 1024 \<le> of_int m * u then (if 0 < x then PosInf else NegInf)
      else Fin (if 0 < x then of_int m * u else - (of_int m * u)))"
    using x0
    by (simp add: round64_def Let_def a_def [symmetric] e0_def [symmetric] e_def [symmetric]
        u_def [symmetric] m_def [symmetric])
  show ?thesis
  proof (cases "0 < x")
    case False
    then have "r = - (of_int m * u)" using assms(4) form by (auto split: if_splits)
    moreover have "(0::real) \<le> of_int B" using assms(2) by simp
    ultimately show ?thesis using mu by linarith
  next
    case True
    then have r: "r = of_int m * u" using assms(4) form by (auto split: if_splits)
    have ax: "a = x" using True by (simp add: a_def)
    have "real_of_int B < of_int (2 ^ 53)" using assms(3) by (simp only: of_int_less_iff)
    then have a53: "a < 2 ^ 53" using assms(1) ax by simp
    have eb: "2 powi e0 \<le> a" using exponent_bounds [OF apos] by (simp add: e0_def)
    have e052: "e0 \<le> 52"
    proof (rule ccontr)
      assume "\<not> e0 \<le> 52"
      then have "53 \<le> e0" by simp
      then have "(2::real) powi 53 \<le> 2 powi e0" by (rule powi_le)
      then show False using eb a53 by simp
    qed
    then have e52: "e \<le> 52" by (simp add: e_def)
    define k where "k = nat (52 - e)"
    have inv: "1 / u = of_int (2 ^ k)"
    proof -
      have "u * 2 powi (52 - e) = 2 powi ((e - 52) + (52 - e))"
        unfolding u_def by (rule powi_add [symmetric])
      then have "u * 2 powi (52 - e) = 1" by simp
      moreover have "(2::real) powi (52 - e) = of_int (2 ^ k)"
        unfolding k_def using e52 by (intro powi_nonneg) simp
      ultimately show ?thesis using upos by (simp add: field_simps)
    qed
    have "a / u \<le> of_int B / u" using assms(1) ax upos by (simp add: divide_right_mono)
    also have "of_int B / u = of_int B * (1 / u)" by simp
    also have "\<dots> = of_int (B * 2 ^ k)" by (simp only: inv) simp
    finally have "m \<le> B * 2 ^ k" unfolding m_def by (rule roundHalfEven_upper)
    then have "real_of_int m \<le> of_int (B * 2 ^ k)" by (simp only: of_int_le_iff)
    then have "of_int m * u \<le> of_int (B * 2 ^ k) * u"
      using upos by (simp only: mult_le_cancel_right_pos)
    also have "of_int (B * 2 ^ k) * u = of_int B * ((1 / u) * u)" by (simp only: inv) simp
    also have "\<dots> = of_int B" using upos by simp
    finally show ?thesis using r by simp
  qed
qed

lemma num_sub64_below_2_53:
  assumes "t \<le> 8640000000000000" and "0 \<le> now"
    and "num_sub64 (Fin (of_int t)) (Fin now) = Fin diff"
  shows "diff < 2 ^ 53"
proof -
  have "real_of_int t \<le> of_int 8640000000000000" using assms(1) by (simp only: of_int_le_iff)
  then have a: "of_int t - now \<le> of_int 8640000000000000" using assms(2) by linarith
  have b: "round64 (of_int t - now) = Fin diff" using assms(3) by simp
  have "diff \<le> of_int 8640000000000000"
    by (rule round64_upper [OF a _ _ b]) simp_all
  then show ?thesis by simp
qed

section \<open>The remaining time\<close>

text \<open>
  The object returned while a valid target is ahead of the clock, field by field.
\<close>

lemma calculateTimeRemaining_running:
  assumes "targetDate e = Some (Some t)"
    and "diff = of_int t - getHighPrecisionTime clk e"
    and "0 < diff"
  shows "let r = fst (calculateTimeRemaining env clk e); td = \<lfloor>diff / 86400000\<rfloor>;
             yearStart = getTime (newDate env
               (case targetYear e of None \<Rightarrow> getFullYear env (wall clk)
                | Some y \<Rightarrow> if y \<noteq> 0 then y else getFullYear env (wall clk)) 0 1)
         in total_ms r = Fin diff \<and> isComplete r = False
          \<and> totalDays r = Some (Fin (of_int td))
          \<and> days r = Fin (of_int (td mod 7))
          \<and> weeks r = Fin (of_int ((td div 7) mod 4))
          \<and> months r = Fin (of_int (td div 30))
          \<and> milliseconds r = Fin (diff - 1000 * of_int \<lfloor>diff / 1000\<rfloor>)
          \<and> seconds r = Fin (of_int (\<lfloor>diff / 1000\<rfloor> mod 60))
          \<and> minutes r = Fin (of_int (\<lfloor>diff / 60000\<rfloor> mod 60))
          \<and> hours r = Fin (of_int (\<lfloor>diff / 3600000\<rfloor> mod 24))
          \<and> progress r = Str (toFixed2 env (num_min (Fin 100) (num_max (Fin 0)
                (num_mul (num_div (num_sub (Fin (getHighPrecisionTime clk e)) yearStart)
                                  (num_sub (Fin (of_int t)) yearStart)) (Fin 100)))))
          \<and> snd (calculateTimeRemaining env clk e) = e"
proof -
  have td: "0 \<le> \<lfloor>diff / 86400000\<rfloor>" using assms(3) by simp
  have d: "num_sub (Fin (of_int t)) (Fin (getHighPrecisionTime clk e)) = Fin diff"
    using assms(2) by simp
  have n: "\<not> num_le (Fin diff) (Fin 0)" using assms(3) by simp
  show ?thesis
    unfolding calculateTimeRemaining_def Let_def
    using assms(1) td
    by (simp add: d n unit_totalDays unit_seconds unit_minutes unit_hours unit_days unit_weeks
        unit_months unit_milliseconds assms(3)
        del: num_sub.simps num_le.simps num_rem.simps num_div.simps num_floor.simps
          num_min.simps num_max.simps num_mul.simps toFixed2.simps)
qed

text \<open>
  Without a target, \<open>calculateTimeRemaining\<close> first sets the default recurring target and
  then computes as it does for an engine that has it.
\<close>

lemma calculateTimeRemaining_default_target:
  assumes "targetDate e = None"
  shows "calculateTimeRemaining env clk e
       = calculateTimeRemaining env clk (setBoxingDay env clk None e)"
    and "targetDate (setBoxingDay env clk None e) \<noteq> None"
  using assms by (simp_all add: calculateTimeRemaining_def setBoxingDay_def Let_def)

text \<open>
  The object returned in binary64 while a valid target is ahead of the clock, field by
  field. \<open>diff\<close> is the difference as line 71 computes it, the exact difference rounded to
  binary64; it is below \<open>2^53\<close> for every Date and every clock reading after 1970, since a
  Date's time value is at most \<open>8.64e15\<close>.
\<close>

lemma calculateTimeRemaining64_running:
  assumes "targetDate e = Some (Some t)"
    and "num_sub64 (Fin (of_int t)) (Fin (getHighPrecisionTime clk e)) = Fin diff"
    and "0 < diff" and "diff < 2 ^ 53"
  shows "let r = fst (calculateTimeRemaining64 env clk e); td = \<lfloor>diff / 86400000\<rfloor>
         in total_ms r = Fin diff \<and> isComplete r = False
          \<and> totalDays r = Some (Fin (of_int td))
          \<and> days r = Fin (of_int (td mod 7))
          \<and> weeks r = Fin (of_int ((td div 7) mod 4))
          \<and> months r = Fin (of_int (td div 30))
          \<and> milliseconds r = Fin (diff - 1000 * of_int \<lfloor>diff / 1000\<rfloor>)
          \<and> seconds r = Fin (of_int (\<lfloor>diff / 1000\<rfloor> mod 60))
          \<and> minutes r = Fin (of_int (\<lfloor>diff / 60000\<rfloor> mod 60))
          \<and> hours r = Fin (of_int (\<lfloor>diff / 3600000\<rfloor> mod 24))"
proof -
  have rd: "round64 (of_int t - getHighPrecisionTime clk e) = Fin diff"
    using assms(2) by simp
  have td: "0 \<le> \<lfloor>diff / 86400000\<rfloor>" using assms(3) by simp
  have "real_of_int \<lfloor>diff / 86400000\<rfloor> \<le> diff / 86400000" by (rule of_int_floor_le)
  also have "\<dots> \<le> diff" using assms(3) by simp
  also have "\<dots> < of_int (2 ^ 53)" using assms(4) by simp
  finally have "real_of_int \<lfloor>diff / 86400000\<rfloor> < of_int (2 ^ 53)" .
  then have td53: "\<lfloor>diff / 86400000\<rfloor> < 2 ^ 53" by (simp only: of_int_less_iff)
  have n: "\<not> num_le (Fin diff) (Fin 0)" using assms(3) by simp
  note u = unit64_seconds [OF rd assms(3,4)] unit64_minutes [OF rd assms(3,4)]
    unit64_hours [OF rd assms(3,4)] unit64_totalDays [OF rd assms(3,4)]
    unit64_weeks [OF td td53] unit64_months [OF td td53]
  show ?thesis
    unfolding calculateTimeRemaining64_def Let_def
    using assms(1) td
    by (simp add: assms(2) n u unit_days unit_milliseconds assms(3)
        del: num_sub64.simps num_le.simps num_rem.simps num_div64.simps num_floor.simps
          num_min.simps num_max.simps num_mul64.simps toFixed2.simps)
qed

text \<open>
  Where the subtraction of line 71 is exact, as it is for a clock that reads whole
  milliseconds, the exact decomposition and the binary64 one are the same.
\<close>

lemma calculateTimeRemaining64_exact:
  assumes "targetDate e = Some (Some t)"
    and "round64 (of_int t - getHighPrecisionTime clk e)
         = Fin (of_int t - getHighPrecisionTime clk e)"
    and "getHighPrecisionTime clk e < of_int t"
    and "of_int t - getHighPrecisionTime clk e < 2 ^ 53"
  shows "let r = fst (calculateTimeRemaining env clk e);
             r' = fst (calculateTimeRemaining64 env clk e)
         in total_ms r' = total_ms r \<and> isComplete r' = isComplete r
          \<and> totalDays r' = totalDays r \<and> days r' = days r \<and> weeks r' = weeks r
          \<and> months r' = months r \<and> milliseconds r' = milliseconds r
          \<and> seconds r' = seconds r \<and> minutes r' = minutes r \<and> hours r' = hours r"
proof -
  define diff where "diff = of_int t - getHighPrecisionTime clk e"
  have d: "num_sub64 (Fin (of_int t)) (Fin (getHighPrecisionTime clk e)) = Fin diff"
    using assms(2) by (simp add: diff_def)
  have p: "0 < diff" "diff < 2 ^ 53" using assms(3,4) by (simp_all add: diff_def)
  show ?thesis
    using calculateTimeRemaining64_running [OF assms(1) d p, of env]
      calculateTimeRemaining_running [OF assms(1) diff_def p(1), of env]
    by (simp add: Let_def)
qed

lemma num_sub64_whole_milliseconds:
  assumes "\<bar>t - n\<bar> < 2 ^ 53"
  shows "num_sub64 (Fin (of_int t)) (Fin (of_int n)) = Fin (of_int t - of_int n)"
  using round64_of_int [OF assms] by simp

text \<open>
  Claim C1. Whenever the target is a valid instant and \<open>diff\<close>, the binary64 value of
  \<open>target - now\<close> that line 71 computes, is positive (and below \<open>2^53\<close>, as it is for every
  Date and every clock reading after 1970), \<open>calculateTimeRemaining\<close> returns
  \<open>total = diff\<close>, \<open>isComplete = false\<close> and the documented decomposition:
  \<open>totalDays = floor(diff / 86400000)\<close>, \<open>days = totalDays mod 7\<close>,
  \<open>weeks = floor(totalDays / 7) mod 4\<close>, \<open>months = floor(totalDays / 30)\<close> with no modulus
  applied, \<open>milliseconds = diff mod 1000\<close>, \<open>seconds = floor(diff / 1000) mod 60\<close>,
  \<open>minutes = floor(diff / 60000) mod 60\<close> and \<open>hours = floor(diff / 3600000) mod 24\<close>. The
  quotients are the binary64 ones of the code; their floors are the floors of the exact
  quotients of \<open>diff\<close>.
\<close>

theorem calculateTimeRemaining_decomposition:
  assumes "targetDate e = Some (Some t)"
    and "num_sub64 (Fin (of_int t)) (Fin (getHighPrecisionTime clk e)) = Fin diff"
    and "0 < diff" and "diff < 2 ^ 53"
  shows "let r = fst (calculateTimeRemaining64 env clk e); td = \<lfloor>diff / 86400000\<rfloor>
         in total_ms r = Fin diff \<and> isComplete r = False
          \<and> totalDays r = Some (Fin (of_int td))
          \<and> days r = Fin (of_int (td mod 7))
          \<and> weeks r = Fin (of_int ((td div 7) mod 4))
          \<and> months r = Fin (of_int (td div 30))
          \<and> milliseconds r = Fin (diff - 1000 * of_int \<lfloor>diff / 1000\<rfloor>)
          \<and> seconds r = Fin (of_int (\<lfloor>diff / 1000\<rfloor> mod 60))
          \<and> minutes r = Fin (of_int (\<lfloor>diff / 60000\<rfloor> mod 60))
          \<and> hours r = Fin (of_int (\<lfloor>diff / 3600000\<rfloor> mod 24))"
  using calculateTimeRemaining64_running [OF assms, of env] by (simp add: Let_def)

lemma exponent_eq:
  assumes "2 powi k \<le> a" and "a < 2 powi (k + 1)"
  shows "exponent a = k"
proof -
  have "(0::real) < 2 powi k" by simp
  then have apos: "0 < a" using assms(1) by linarith
  note b = exponent_bounds [OF apos]
  have "\<not> k + 1 \<le> exponent a"
  proof
    assume "k + 1 \<le> exponent a"
    then have "(2::real) powi (k + 1) \<le> 2 powi exponent a" by (rule powi_le)
    then show False using b assms(2) by linarith
  qed
  moreover have "\<not> exponent a + 1 \<le> k"
  proof
    assume "exponent a + 1 \<le> k"
    then have "(2::real) powi (exponent a + 1) \<le> 2 powi k" by (rule powi_le)
    then show False using b assms(1) by linarith
  qed
  ultimately show ?thesis by simp
qed

text \<open>
  Two inputs. The example of the specification: the target is local midnight of
  26 December 2026 and the clock reads local midnight of 26 November 2026. And a target
  far ahead, \<open>setBoxingDay(2100)\<close>, with the clock \<open>2^-12\<close> ms after that midnight: the
  exact difference \<open>2337811199999.999755859375\<close> is not a binary64 number, line 71
  computes \<open>2337811200000\<close>, and the decomposition is that of the computed value, 27058
  whole days and nothing else.
\<close>

theorem calculateTimeRemaining_decomposition_witness:
  "let e = setBoxingDay example_env \<lparr>wall = 0, perf = 0\<rparr> (Some 2026)
             (CountdownEngine example_env None);
       r = fst (calculateTimeRemaining64 example_env
                  \<lparr>wall = 1795629600000, perf = 1795629600000\<rparr> e);
       e' = setBoxingDay example_env \<lparr>wall = 0, perf = 0\<rparr> (Some 2100)
             (CountdownEngine example_env None);
       r' = fst (calculateTimeRemaining64 example_env
                  \<lparr>wall = 1795629600000, perf = 1795629600000 + 1 / 4096\<rparr> e')
   in targetDate e = Some (Some (localMidnight example_env 2026 11 26))
    \<and> localMidnight example_env 2026 10 26 = 1795629600000
    \<and> totalDays r = Some (Fin 30) \<and> weeks r = Fin 0 \<and> days r = Fin 2 \<and> months r = Fin 1
    \<and> hours r = Fin 0 \<and> minutes r = Fin 0 \<and> seconds r = Fin 0
    \<and> targetDate e' = Some (Some (localMidnight example_env 2100 11 26))
    \<and> total_ms r' = Fin 2337811200000 \<and> totalDays r' = Some (Fin 27058)
    \<and> hours r' = Fin 0 \<and> minutes r' = Fin 0 \<and> seconds r' = Fin 0
    \<and> milliseconds r' = Fin 0"
proof -
  define e where "e = setBoxingDay example_env \<lparr>wall = 0, perf = 0\<rparr> (Some 2026)
    (CountdownEngine example_env None)"
  define clk where "clk = \<lparr>wall = 1795629600000, perf = 1795629600000\<rparr>"
  define e' where "e' = setBoxingDay example_env \<lparr>wall = 0, perf = 0\<rparr> (Some 2100)
    (CountdownEngine example_env None)"
  define clk' where "clk' = \<lparr>wall = 1795629600000, perf = 1795629600000 + 1 / 4096\<rparr>"
  have m1: "localMidnight example_env 2026 11 26 = 1798221600000"
    by (simp add: localMidnight_def UTC_def MakeDate_def MakeDay_def DayFromYear_def
        DaysInYear_def monthStart_def msPerDay_def example_env_def)
  have m2: "localMidnight example_env 2026 10 26 = 1795629600000"
    by (simp add: localMidnight_def UTC_def MakeDate_def MakeDay_def DayFromYear_def
        DaysInYear_def monthStart_def msPerDay_def example_env_def)
  have m3: "localMidnight example_env 2100 11 26 = 4133440800000"
    by (simp add: localMidnight_def UTC_def MakeDate_def MakeDay_def DayFromYear_def
        DaysInYear_def monthStart_def msPerDay_def example_env_def)
  have t: "targetDate e = Some (Some 1798221600000)"
    using m1 by (simp add: e_def setBoxingDay_def newDate_def TimeClip_def localMidnight_def)
  have t': "targetDate e' = Some (Some 4133440800000)"
    using m3 by (simp add: e'_def setBoxingDay_def newDate_def TimeClip_def localMidnight_def)
  have g: "getHighPrecisionTime clk e = 1795629600000"
    by (simp add: getHighPrecisionTime_def clk_def e_def setBoxingDay_def CountdownEngine_def
        example_env_def)
  have g': "getHighPrecisionTime clk' e' = 1795629600000 + 1 / 4096"
    by (simp add: getHighPrecisionTime_def clk'_def e'_def setBoxingDay_def
        CountdownEngine_def example_env_def)
  have "round64 (real_of_int 2592000000) = Fin (real_of_int 2592000000)"
    by (rule round64_of_int) simp
  then have d: "num_sub64 (Fin (of_int 1798221600000)) (Fin (getHighPrecisionTime clk e))
      = Fin 2592000000"
    by (simp add: g)
  have ex: "exponent (9575674675199999 / 4096) = 41"
    by (rule exponent_eq) simp_all
  have "round64 (9575674675199999 / 4096) = Fin 2337811200000"
    by (simp add: round64_def ex roundHalfEven_def Let_def)
  then have d': "num_sub64 (Fin (of_int 4133440800000)) (Fin (getHighPrecisionTime clk' e'))
      = Fin 2337811200000"
    by (simp add: g')
  have p: "(0::real) < 2592000000" "(2592000000::real) < 2 ^ 53" by simp_all
  have p': "(0::real) < 2337811200000" "(2337811200000::real) < 2 ^ 53" by simp_all
  have T: "targetDate e = Some (Some (localMidnight example_env 2026 11 26))"
    using t m1 by simp
  have T': "targetDate e' = Some (Some (localMidnight example_env 2100 11 26))"
    using t' m3 by simp
  have A: "totalDays (fst (calculateTimeRemaining64 example_env clk e)) = Some (Fin 30)
      \<and> weeks (fst (calculateTimeRemaining64 example_env clk e)) = Fin 0
      \<and> days (fst (calculateTimeRemaining64 example_env clk e)) = Fin 2
      \<and> months (fst (calculateTimeRemaining64 example_env clk e)) = Fin 1
      \<and> hours (fst (calculateTimeRemaining64 example_env clk e)) = Fin 0
      \<and> minutes (fst (calculateTimeRemaining64 example_env clk e)) = Fin 0
      \<and> seconds (fst (calculateTimeRemaining64 example_env clk e)) = Fin 0"
    using calculateTimeRemaining_decomposition [OF t d p, of example_env]
    by (simp add: Let_def)
  have B: "total_ms (fst (calculateTimeRemaining64 example_env clk' e')) = Fin 2337811200000
      \<and> totalDays (fst (calculateTimeRemaining64 example_env clk' e')) = Some (Fin 27058)
      \<and> hours (fst (calculateTimeRemaining64 example_env clk' e')) = Fin 0
      \<and> minutes (fst (calculateTimeRemaining64 example_env clk' e')) = Fin 0
      \<and> seconds (fst (calculateTimeRemaining64 example_env clk' e')) = Fin 0
      \<and> milliseconds (fst (calculateTimeRemaining64 example_env clk' e')) = Fin 0"
    using calculateTimeRemaining_decomposition [OF t' d' p', of example_env]
    by (simp add: Let_def)
  show ?thesis
    using T T' A B m2 unfolding Let_def e_def clk_def e'_def clk'_def by blast
qed

text \<open>
  When the target is a valid instant at or before the clock reading, the object returned
  is the fixed completion object. It has no \<open>totalDays\<close> property.
\<close>

lemma calculateTimeRemaining_complete:
  assumes "targetDate e = Some (Some t)"
    and "of_int t \<le> getHighPrecisionTime clk e"
  shows "calculateTimeRemaining env clk e =
     (\<lparr> total_ms = Fin 0, months = Fin 0, weeks = Fin 0, days = Fin 0, hours = Fin 0,
        minutes = Fin 0, seconds = Fin 0, milliseconds = Fin 0, totalDays = None,
        isComplete = True, progress = Num (Fin 100) \<rparr>, e)"
  using assms by (simp add: calculateTimeRemaining_def)

lemma example_dec26: "newDate example_env 2026 11 26 = Some 1798221600000"
  by (simp add: newDate_def TimeClip_def UTC_def MakeDate_def MakeDay_def DayFromYear_def
      DaysInYear_def monthStart_def msPerDay_def example_env_def)

text \<open>
  Claim C2. For a target at or before the clock reading the returned object has
  \<open>isComplete = true\<close>, \<open>progress = 100\<close> and the fields \<open>total\<close>, \<open>months\<close>, \<open>weeks\<close>,
  \<open>days\<close>, \<open>hours\<close>, \<open>minutes\<close>, \<open>seconds\<close> and \<open>milliseconds\<close> equal to zero, but its
  total of whole days is not zero: the property \<open>totalDays\<close> is absent. Evaluated with the
  clock exactly at the target, local midnight of 26 December 2026.
\<close>

theorem calculateTimeRemaining_complete_totalDays:
  "let e = setBoxingDay example_env \<lparr>wall = 0, perf = 0\<rparr> (Some 2026)
             (CountdownEngine example_env None);
       r = fst (calculateTimeRemaining example_env
                  \<lparr>wall = 1798221600000, perf = 1798221600000\<rparr> e)
   in targetDate e = Some (Some 1798221600000) \<and> isComplete r \<and> progress r = Num (Fin 100)
    \<and> total_ms r = Fin 0 \<and> months r = Fin 0 \<and> weeks r = Fin 0 \<and> days r = Fin 0
    \<and> hours r = Fin 0 \<and> minutes r = Fin 0 \<and> seconds r = Fin 0 \<and> milliseconds r = Fin 0
    \<and> totalDays r = None \<and> totalDays r \<noteq> Some (Fin 0)"
proof -
  define e where "e = setBoxingDay example_env \<lparr>wall = 0, perf = 0\<rparr> (Some 2026)
    (CountdownEngine example_env None)"
  have t: "targetDate e = Some (Some 1798221600000)"
    by (simp add: e_def setBoxingDay_def example_dec26)
  have "useHighPrecision e"
    by (simp add: e_def setBoxingDay_def CountdownEngine_def example_env_def)
  then have "of_int 1798221600000
      \<le> getHighPrecisionTime \<lparr>wall = 1798221600000, perf = 1798221600000\<rparr> e"
    by (simp add: getHighPrecisionTime_def)
  from calculateTimeRemaining_complete [OF t this, of example_env] t
  show ?thesis by (simp add: Let_def e_def [symmetric])
qed

section \<open>The calendar\<close>

lemma div_bracket:
  fixes x k :: int
  assumes "0 < k"
  shows "k * (x div k) \<le> x \<and> x < k * (x div k) + k"
proof -
  have "x = k * (x div k) + x mod k" by simp
  moreover have "0 \<le> x mod k" "x mod k < k" using assms by simp_all
  ultimately show ?thesis by linarith
qed

text \<open>\<open>DayFromYear\<close> stays within two days of the mean year length.\<close>

lemma DayFromYear_approx:
  assumes "y = 1970 + n"
  shows "146097 * n - 800 \<le> 400 * DayFromYear y \<and> 400 * DayFromYear y \<le> 146097 * n + 800"
proof -
  define a where "a = (y - 1969) div 4"
  define b where "b = (y - 1901) div 100"
  define c where "c = (y - 1601) div 400"
  have a: "4 * a \<le> n + 1 \<and> n + 1 < 4 * a + 4"
    using div_bracket [of 4 "y - 1969"] assms by (simp add: a_def)
  have b: "100 * b \<le> n + 69 \<and> n + 69 < 100 * b + 100"
    using div_bracket [of 100 "y - 1901"] assms by (simp add: b_def)
  have c: "400 * c \<le> n + 369 \<and> n + 369 < 400 * c + 400"
    using div_bracket [of 400 "y - 1601"] assms by (simp add: c_def)
  have "DayFromYear y = 365 * n + a - b + c"
    using assms by (simp add: DayFromYear_def a_def b_def c_def)
  then show ?thesis using a b c by linarith
qed

lemma DayFromYear_step:
  "DayFromYear y + 364 \<le> DayFromYear (y + 1) \<and> DayFromYear (y + 1) \<le> DayFromYear y + 367"
proof -
  define a where "a = (y - 1969) div 4"
  define b where "b = (y - 1901) div 100"
  define c where "c = (y - 1601) div 400"
  define a' where "a' = (y + 1 - 1969) div 4"
  define b' where "b' = (y + 1 - 1901) div 100"
  define c' where "c' = (y + 1 - 1601) div 400"
  have a: "4 * a \<le> y - 1969 \<and> y - 1969 < 4 * a + 4"
    using div_bracket [of 4 "y - 1969"] by (simp add: a_def)
  have b: "100 * b \<le> y - 1901 \<and> y - 1901 < 100 * b + 100"
    using div_bracket [of 100 "y - 1901"] by (simp add: b_def)
  have c: "400 * c \<le> y - 1601 \<and> y - 1601 < 400 * c + 400"
    using div_bracket [of 400 "y - 1601"] by (simp add: c_def)
  have a': "4 * a' \<le> y + 1 - 1969 \<and> y + 1 - 1969 < 4 * a' + 4"
    using div_bracket [of 4 "y + 1 - 1969"] by (simp add: a'_def)
  have b': "100 * b' \<le> y + 1 - 1901 \<and> y + 1 - 1901 < 100 * b' + 100"
    using div_bracket [of 100 "y + 1 - 1901"] by (simp add: b'_def)
  have c': "400 * c' \<le> y + 1 - 1601 \<and> y + 1 - 1601 < 400 * c' + 400"
    using div_bracket [of 400 "y + 1 - 1601"] by (simp add: c'_def)
  have 1: "DayFromYear y = 365 * (y - 1970) + a - b + c"
    by (simp add: DayFromYear_def a_def b_def c_def)
  have 2: "DayFromYear (y + 1) = 365 * (y + 1 - 1970) + a' - b' + c'"
    by (simp add: DayFromYear_def a'_def b'_def c'_def)
  have da: "a \<le> a' \<and> a' \<le> a + 1" using a a' by linarith
  have db: "b \<le> b' \<and> b' \<le> b + 1" using b b' by linarith
  have dc: "c \<le> c' \<and> c' \<le> c + 1" using c c' by linarith
  have 3: "DayFromYear (y + 1) = DayFromYear y + 365 + (a' - a) - (b' - b) + (c' - c)"
    unfolding 1 2 by simp
  have "DayFromYear y + 364 \<le> DayFromYear (y + 1)"
    using da db dc unfolding 3 by linarith
  moreover have "DayFromYear (y + 1) \<le> DayFromYear y + 367"
    using da db dc unfolding 3 by linarith
  ultimately show ?thesis by simp
qed

text \<open>\<open>YearFromDay\<close> is the year whose days include the day number.\<close>

lemma YearFromDay_correct:
  assumes "DayFromYear y \<le> d" and "d < DayFromYear (y + 1)"
  shows "YearFromDay d = y"
proof -
  define q where "q = (400 * d) div 146097"
  define n where "n = y - 1970"
  have q: "146097 * q \<le> 400 * d \<and> 400 * d < 146097 * q + 146097"
    using div_bracket [of 146097 "400 * d"] by (simp add: q_def)
  have A: "146097 * n - 800 \<le> 400 * DayFromYear y"
    using DayFromYear_approx [of y n] by (simp add: n_def)
  have B: "400 * DayFromYear (y + 1) \<le> 146097 * n + 146897"
    using DayFromYear_approx [of "y + 1" "n + 1"] by (simp add: n_def)
  have lo: "n - 1 \<le> q" using q A assms(1) by linarith
  have hi: "q \<le> n + 1" using q B assms(2) by linarith
  have yd: "YearFromDay d =
      (if DayFromYear (1970 + q + 1) \<le> d then 1970 + q + 1
       else if d < DayFromYear (1970 + q) then 1970 + q - 1 else 1970 + q)"
    by (simp add: YearFromDay_def q_def Let_def)
  consider "q = n - 1" | "q = n" | "q = n + 1" using lo hi by linarith
  then show ?thesis
  proof cases
    case 1
    then have "1970 + q + 1 = y" by (simp add: n_def)
    then show ?thesis using assms(1) unfolding yd by simp
  next
    case 2
    then have "1970 + q = y" by (simp add: n_def)
    then show ?thesis using assms unfolding yd by simp
  next
    case 3
    then have e: "1970 + q = y + 1" by (simp add: n_def)
    have "d < DayFromYear (y + 1 + 1)"
      using assms(2) DayFromYear_step [of "y + 1"] by linarith
    then show ?thesis using assms unfolding yd e by simp
  qed
qed

lemma localMidnight_eq: "localMidnight env y m d = MakeDay y m d * msPerDay - tza env"
  by (simp add: localMidnight_def UTC_def MakeDate_def)

lemma MakeDay_jan1: "MakeDay y 0 1 = DayFromYear y"
  by (simp add: MakeDay_def monthStart_def)

lemma MakeDay_dec:
  "MakeDay y 11 d = DayFromYear y + 334 + (if DaysInYear y = 366 then 1 else 0) + d - 1"
  by (simp add: MakeDay_def monthStart_def)

text \<open>A clock reading between two local new years is in the year of the first.\<close>

lemma getFullYear_in_year:
  assumes "localMidnight env Y 0 1 \<le> t" and "t < localMidnight env (Y + 1) 0 1"
  shows "getFullYear env t = Y"
proof -
  define x where "x = t + tza env"
  define q where "q = x div 86400000"
  have q: "86400000 * q \<le> x \<and> x < 86400000 * q + 86400000"
    using div_bracket [of 86400000 x] by (simp add: q_def)
  have lo: "86400000 * DayFromYear Y \<le> x"
    using assms(1) by (simp add: localMidnight_eq MakeDay_jan1 msPerDay_def x_def)
  have hi: "x < 86400000 * DayFromYear (Y + 1)"
    using assms(2) by (simp add: localMidnight_eq MakeDay_jan1 msPerDay_def x_def)
  have "DayFromYear Y \<le> q" using q lo by linarith
  moreover have "q < DayFromYear (Y + 1)" using q hi by linarith
  ultimately have "YearFromDay q = Y" by (rule YearFromDay_correct)
  then show ?thesis
    by (simp add: getFullYear_def YearFromTime_def LocalTime_def msPerDay_def q_def x_def)
qed

text \<open>
  For the years a clock can read, 26 December at local midnight is a valid Date.
\<close>

lemma newDate_dec26:
  assumes "1970 \<le> y" and "y \<le> 275001" and "\<bar>tza env\<bar> \<le> msPerDay"
  shows "newDate env y 11 26 = Some (localMidnight env y 11 26)"
proof -
  define n where "n = y - 1970"
  define D where "D = DayFromYear y"
  have a: "146097 * n - 800 \<le> 400 * D \<and> 400 * D \<le> 146097 * n + 800"
    using DayFromYear_approx [of y n] by (simp add: n_def D_def)
  have n: "0 \<le> n" "n \<le> 273031" using assms by (simp_all add: n_def)
  have D: "- 2 \<le> D" "D \<le> 99722600" using a n by linarith+
  define M where "M = MakeDay y 11 26"
  have M: "D + 359 \<le> M" "M \<le> D + 360" by (simp_all add: M_def MakeDay_dec D_def)
  define T where "T = 86400000 * M - tza env"
  have tz: "- 86400000 \<le> tza env" "tza env \<le> 86400000"
    using assms(3) by (simp_all add: msPerDay_def abs_le_iff)
  have T: "0 \<le> T" "T \<le> 8640000000000000" using D M tz unfolding T_def by linarith+
  have l: "localMidnight env y 11 26 = T"
    by (simp add: localMidnight_eq T_def M_def msPerDay_def)
  have "newDate env y 11 26 = TimeClip (localMidnight env y 11 26)"
    using assms(1) by (simp add: newDate_def localMidnight_def)
  then show ?thesis using T by (simp add: l TimeClip_def)
qed

section \<open>The recurring target\<close>

text \<open>
  Claim C7. \<open>setBoxingDay()\<close> without an argument, at a clock reading in the local year
  \<open>Y\<close>: the target becomes local midnight of 26 December of \<open>Y\<close> unless the clock is past
  that instant, and of \<open>Y + 1\<close> when it is; the year is recorded in \<open>targetYear\<close>. On
  27 December of \<open>Y\<close> the year is \<open>Y + 1\<close>, on 25 December it is \<open>Y\<close>. The years are those a
  clock can read and a Date can hold, the offset of local time is at most a day.
\<close>

theorem setBoxingDay_default:
  assumes "1970 \<le> Y" and "Y \<le> 275000" and "\<bar>tza env\<bar> \<le> msPerDay"
  shows "(\<forall>clk. localMidnight env Y 0 1 \<le> wall clk \<and> wall clk < localMidnight env (Y + 1) 0 1
            \<longrightarrow> (let e' = setBoxingDay env clk None e;
                      Y' = (if localMidnight env Y 11 26 < wall clk then Y + 1 else Y)
                  in targetYear e' = Some Y'
                   \<and> targetDate e' = Some (Some (localMidnight env Y' 11 26))))
       \<and> (\<forall>clk. localMidnight env Y 11 27 \<le> wall clk \<and> wall clk < localMidnight env Y 11 28
            \<longrightarrow> targetYear (setBoxingDay env clk None e) = Some (Y + 1))
       \<and> (\<forall>clk. localMidnight env Y 11 25 \<le> wall clk \<and> wall clk < localMidnight env Y 11 26
            \<longrightarrow> targetYear (setBoxingDay env clk None e) = Some Y)"
proof -
  have d0: "newDate env Y 11 26 = Some (localMidnight env Y 11 26)"
    using assms by (intro newDate_dec26) simp_all
  have d1: "newDate env (Y + 1) 11 26 = Some (localMidnight env (Y + 1) 11 26)"
    using assms by (intro newDate_dec26) simp_all
  have general: "targetYear (setBoxingDay env clk None e)
        = Some (if localMidnight env Y 11 26 < wall clk then Y + 1 else Y)
      \<and> targetDate (setBoxingDay env clk None e)
        = Some (Some (localMidnight env
             (if localMidnight env Y 11 26 < wall clk then Y + 1 else Y) 11 26))"
    if "localMidnight env Y 0 1 \<le> wall clk" "wall clk < localMidnight env (Y + 1) 0 1" for clk
  proof -
    have "getFullYear env (wall clk) = Y" using that by (rule getFullYear_in_year)
    then show ?thesis by (simp add: setBoxingDay_def Let_def d0 d1)
  qed
  have step: "DayFromYear Y + 364 \<le> DayFromYear (Y + 1)"
    using DayFromYear_step [of Y] by simp
  have in_year: "localMidnight env Y 0 1 \<le> t \<and> t < localMidnight env (Y + 1) 0 1"
    if "localMidnight env Y 11 25 \<le> t" "t < localMidnight env Y 11 28" for t
  proof -
    define D where "D = DayFromYear Y"
    define D' where "D' = DayFromYear (Y + 1)"
    define L where "L = (if DaysInYear Y = 366 then 1 else 0 :: int)"
    have L: "0 \<le> L" "L \<le> 1" by (simp_all add: L_def)
    have 1: "86400000 * D + 86400000 * L + 30931200000 - tza env \<le> t"
      using that(1) by (simp add: localMidnight_eq MakeDay_dec msPerDay_def D_def L_def)
    have 2: "t < 86400000 * D + 86400000 * L + 31190400000 - tza env"
      using that(2) by (simp add: localMidnight_eq MakeDay_dec msPerDay_def D_def L_def)
    have 3: "D + 364 \<le> D'" using step by (simp add: D_def D'_def)
    have "86400000 * D - tza env \<le> t" using 1 L by linarith
    moreover have "t < 86400000 * D' - tza env" using 2 3 L by linarith
    ultimately show ?thesis
      by (simp add: localMidnight_eq MakeDay_jan1 msPerDay_def D_def D'_def)
  qed
  have order: "localMidnight env Y 11 25 < localMidnight env Y 11 26"
    "localMidnight env Y 11 26 < localMidnight env Y 11 27"
    "localMidnight env Y 11 27 < localMidnight env Y 11 28"
    by (simp_all add: localMidnight_eq MakeDay_dec msPerDay_def)
  have dec27: "targetYear (setBoxingDay env clk None e) = Some (Y + 1)"
    if "localMidnight env Y 11 27 \<le> wall clk" "wall clk < localMidnight env Y 11 28" for clk
  proof -
    have "localMidnight env Y 11 25 \<le> wall clk" using that(1) order by linarith
    then have "localMidnight env Y 0 1 \<le> wall clk \<and> wall clk < localMidnight env (Y + 1) 0 1"
      using that(2) by (rule in_year)
    moreover have "localMidnight env Y 11 26 < wall clk" using that(1) order by linarith
    ultimately show ?thesis using general [of clk] by simp
  qed
  have dec25: "targetYear (setBoxingDay env clk None e) = Some Y"
    if "localMidnight env Y 11 25 \<le> wall clk" "wall clk < localMidnight env Y 11 26" for clk
  proof -
    have "wall clk < localMidnight env Y 11 28" using that(2) order by linarith
    with that(1)
    have "localMidnight env Y 0 1 \<le> wall clk \<and> wall clk < localMidnight env (Y + 1) 0 1"
      by (rule in_year)
    moreover have "\<not> localMidnight env Y 11 26 < wall clk" using that(2) by simp
    ultimately show ?thesis using general [of clk] by simp
  qed
  show ?thesis using general dec27 dec25 by (simp add: Let_def)
qed

text \<open>
  In the example runtime in 2026: at noon of 27 December the year is 2027, at noon of
  25 December it is 2026 and the target is local midnight of 26 December 2026.
\<close>

theorem setBoxingDay_default_witness:
  "(1970::int) \<le> 2026 \<and> (2026::int) \<le> 275000 \<and> \<bar>tza example_env\<bar> \<le> msPerDay
   \<and> localMidnight example_env 2026 11 27 \<le> 1798351200000
   \<and> 1798351200000 < localMidnight example_env 2026 11 28
   \<and> targetYear (setBoxingDay example_env \<lparr>wall = 1798351200000, perf = 0\<rparr> None
        (CountdownEngine example_env None)) = Some 2027
   \<and> localMidnight example_env 2026 11 25 \<le> 1798178400000
   \<and> 1798178400000 < localMidnight example_env 2026 11 26
   \<and> targetYear (setBoxingDay example_env \<lparr>wall = 1798178400000, perf = 0\<rparr> None
        (CountdownEngine example_env None)) = Some 2026
   \<and> targetDate (setBoxingDay example_env \<lparr>wall = 1798178400000, perf = 0\<rparr> None
        (CountdownEngine example_env None)) = Some (Some 1798221600000)"
proof -
  have h: "(1970::int) \<le> 2026" "(2026::int) \<le> 275000" "\<bar>tza example_env\<bar> \<le> msPerDay"
    by (simp_all add: example_env_def msPerDay_def)
  have m: "localMidnight example_env 2026 0 1 = 1767204000000"
    "localMidnight example_env 2027 0 1 = 1798740000000"
    "localMidnight example_env 2026 11 25 = 1798135200000"
    "localMidnight example_env 2026 11 26 = 1798221600000"
    "localMidnight example_env 2026 11 27 = 1798308000000"
    "localMidnight example_env 2026 11 28 = 1798394400000"
    by (simp_all add: localMidnight_def UTC_def MakeDate_def MakeDay_def DayFromYear_def
        DaysInYear_def monthStart_def msPerDay_def example_env_def)
  note t = setBoxingDay_default [OF h, of "CountdownEngine example_env None"]
  from t have a: "targetYear (setBoxingDay example_env \<lparr>wall = 1798351200000, perf = 0\<rparr> None
        (CountdownEngine example_env None)) = Some 2027"
    by (simp add: m)
  from t have b: "targetYear (setBoxingDay example_env \<lparr>wall = 1798178400000, perf = 0\<rparr> None
        (CountdownEngine example_env None)) = Some 2026"
    by (simp add: m)
  from t have "localMidnight example_env 2026 0 1 \<le> wall \<lparr>wall = 1798178400000, perf = 0\<rparr>
      \<and> wall \<lparr>wall = 1798178400000, perf = 0\<rparr> < localMidnight example_env (2026 + 1) 0 1
      \<longrightarrow> targetDate (setBoxingDay example_env \<lparr>wall = 1798178400000, perf = 0\<rparr> None
        (CountdownEngine example_env None)) = Some (Some 1798221600000)"
    by (simp add: m Let_def)
  then have c: "targetDate (setBoxingDay example_env \<lparr>wall = 1798178400000, perf = 0\<rparr> None
        (CountdownEngine example_env None)) = Some (Some 1798221600000)"
    by (simp add: m)
  show ?thesis using h a b c by (simp add: m)
qed

section \<open>The occurrences\<close>

lemma getAllBoxingDays_from_le:
  "y \<le> hi \<Longrightarrow> getAllBoxingDays_from env y hi =
     \<lparr> year = y, date = getBoxingDayDate env y,
       dayOfWeek = toLocaleDateString env (getBoxingDayDate env y) WeekdayLong,
       formatted = toLocaleDateString env (getBoxingDayDate env y) FullLong \<rparr>
     # getAllBoxingDays_from env (y + 1) hi"
  by (subst getAllBoxingDays_from.simps) (simp add: Let_def)

lemma getAllBoxingDays_from_gt: "hi < y \<Longrightarrow> getAllBoxingDays_from env y hi = []"
  by (subst getAllBoxingDays_from.simps) simp

lemma years_getAllBoxingDays_from: "map year (getAllBoxingDays_from env y hi) = [y..hi]"
proof (induction env y hi rule: getAllBoxingDays_from.induct)
  case (1 env y hi)
  show ?case
  proof (cases "y \<le> hi")
    case True
    then show ?thesis using 1 by (simp add: getAllBoxingDays_from_le upto_rec1 [of y hi])
  next
    case False
    then show ?thesis by (simp add: getAllBoxingDays_from_gt)
  qed
qed

lemma dates_getAllBoxingDays_from:
  "b \<in> set (getAllBoxingDays_from env y hi) \<Longrightarrow> date b = getBoxingDayDate env (year b)"
proof (induction env y hi rule: getAllBoxingDays_from.induct)
  case (1 env y hi)
  show ?case
  proof (cases "y \<le> hi")
    case True
    then show ?thesis using 1 by (auto simp: getAllBoxingDays_from_le)
  next
    case False
    then show ?thesis using 1(2) by (simp add: getAllBoxingDays_from_gt)
  qed
qed

text \<open>
  Claim C8. \<open>getAllBoxingDays\<close> returns one entry per year of \<open>yearRange\<close>, from \<open>start\<close>
  to \<open>end\<close> inclusive and in that order: the years are strictly ascending and distinct,
  there are \<open>end - start + 1\<close> entries, and each entry's date is \<open>getBoxingDayDate\<close> of its
  year. For the engine as constructed (the range 2024 to 2035) there are 12 entries, each
  the local midnight of 26 December of its year. The result is a function of the runtime
  and the engine's range alone, and the engine is not changed: the method returns the
  list only.
\<close>

theorem getAllBoxingDays_years:
  "map year (getAllBoxingDays env e) = [yearRange_start e..yearRange_end e]
   \<and> sorted_wrt (<) (map year (getAllBoxingDays env e))
   \<and> distinct (map year (getAllBoxingDays env e))
   \<and> (yearRange_start e \<le> yearRange_end e + 1 \<longrightarrow>
        int (length (getAllBoxingDays env e)) = yearRange_end e - yearRange_start e + 1)
   \<and> (\<forall>b \<in> set (getAllBoxingDays env e). date b = getBoxingDayDate env (year b))
   \<and> length (getAllBoxingDays env (CountdownEngine env f)) = 12
   \<and> map year (getAllBoxingDays env (CountdownEngine env f))
      = [2024, 2025, 2026, 2027, 2028, 2029, 2030, 2031, 2032, 2033, 2034, 2035]
   \<and> (\<forall>b \<in> set (getAllBoxingDays env (CountdownEngine env f)).
        date b = TimeClip (localMidnight env (year b) 11 26))"
proof -
  have y: "map year (getAllBoxingDays env e) = [yearRange_start e..yearRange_end e]" for e
    by (simp add: getAllBoxingDays_def years_getAllBoxingDays_from)
  have l: "length (getAllBoxingDays env e) = length [yearRange_start e..yearRange_end e]" for e
    using y [of e, THEN arg_cong, of length] by simp
  have d: "date b = getBoxingDayDate env (year b)" if "b \<in> set (getAllBoxingDays env e)" for b e
    using that by (simp add: getAllBoxingDays_def dates_getAllBoxingDays_from)
  have r: "yearRange_start (CountdownEngine env f) = 2024"
    "yearRange_end (CountdownEngine env f) = 2035"
    by (simp_all add: CountdownEngine_def)
  have c: "date b = TimeClip (localMidnight env (year b) 11 26)"
    if "b \<in> set (getAllBoxingDays env (CountdownEngine env f))" for b
  proof -
    have "year b \<in> set (map year (getAllBoxingDays env (CountdownEngine env f)))"
      using that by simp
    then have "2024 \<le> year b" unfolding y r by auto
    then show ?thesis
      using d [OF that] by (simp add: getBoxingDayDate_def newDate_def localMidnight_def)
  qed
  have u: "[2024..2035::int] = [2024, 2025, 2026, 2027, 2028, 2029, 2030, 2031, 2032, 2033, 2034, 2035]"
    by (simp add: upto_rec1)
  show ?thesis
    using d c by (simp add: y l r u)
qed

text \<open>
  In the example runtime the entry for 2026 is in the list, with the time value of local
  midnight of 26 December 2026.
\<close>

theorem getAllBoxingDays_years_witness:
  "length (getAllBoxingDays example_env (CountdownEngine example_env None)) = 12
   \<and> map year (getAllBoxingDays example_env (CountdownEngine example_env None))
      = [2024, 2025, 2026, 2027, 2028, 2029, 2030, 2031, 2032, 2033, 2034, 2035]
   \<and> \<lparr> year = 2026, date = Some 1798221600000, dayOfWeek = '''', formatted = '''' \<rparr>
      \<in> set (getAllBoxingDays example_env (CountdownEngine example_env None))
   \<and> date (getAllBoxingDays example_env (CountdownEngine example_env None) ! 2)
      = TimeClip (localMidnight example_env 2026 11 26)"
proof -
  define xs where "xs = getAllBoxingDays example_env (CountdownEngine example_env None)"
  define b where "b = \<lparr> year = 2026, date = Some 1798221600000, dayOfWeek = '''',
    formatted = '''' \<rparr>"
  note t = getAllBoxingDays_years [of example_env "CountdownEngine example_env None" None,
    folded xs_def]
  from t have L: "length xs = 12" by blast
  from t have Y: "map year xs
      = [2024, 2025, 2026, 2027, 2028, 2029, 2030, 2031, 2032, 2033, 2034, 2035]" by blast
  from t have B: "\<forall>b \<in> set xs. date b = TimeClip (localMidnight example_env (year b) 11 26)"
    by blast
  have f: "toLocaleDateString example_env d k = ''''" for d k
    by (simp add: example_env_def)
  have g: "xs ! 2 = b"
    by (simp add: xs_def b_def getAllBoxingDays_def CountdownEngine_def
        getAllBoxingDays_from_le getBoxingDayDate_def example_dec26 f)
  have m: "b \<in> set xs"
    using nth_mem [of 2 xs] L by (simp add: g)
  from B m have "date b = TimeClip (localMidnight example_env (year b) 11 26)"
    by (rule bspec)
  then have d: "date (xs ! 2) = TimeClip (localMidnight example_env 2026 11 26)"
    by (simp add: g b_def)
  show ?thesis
    using L Y m d unfolding xs_def b_def by blast
qed

section \<open>The readable time\<close>

lemma part_zero: "part env (Fin 0) u = []"
  by (simp add: part_def)

text \<open>
  Claim C10. For an object with \<open>isComplete = true\<close>, \<open>getReadableTime\<close> returns the fixed
  string; for one with \<open>isComplete = false\<close> whose months, weeks, days, hours, minutes and
  seconds are all zero it returns the empty string. Called without an argument less than
  a second before a valid target it returns the empty string, and at or after the target
  the fixed string.
\<close>

theorem getReadableTime_empty:
  "(isComplete r \<longrightarrow> fst (getReadableTime env clk (Some r) e) = ''It's Boxing Day!'')
   \<and> (\<not> isComplete r \<and> months r = Fin 0 \<and> weeks r = Fin 0 \<and> days r = Fin 0
        \<and> hours r = Fin 0 \<and> minutes r = Fin 0 \<and> seconds r = Fin 0
      \<longrightarrow> fst (getReadableTime env clk (Some r) e) = '''')
   \<and> (targetDate e = Some (Some t) \<and> 0 < of_int t - getHighPrecisionTime clk e
        \<and> of_int t - getHighPrecisionTime clk e < 1000
      \<longrightarrow> fst (getReadableTime env clk None e) = '''')
   \<and> (targetDate e = Some (Some t) \<and> of_int t \<le> getHighPrecisionTime clk e
      \<longrightarrow> fst (getReadableTime env clk None e) = ''It's Boxing Day!'')"
proof -
  have a: "fst (getReadableTime env clk (Some r) e) = ''It's Boxing Day!''" if "isComplete r"
    using that by (simp add: getReadableTime_def)
  have b: "fst (getReadableTime env clk (Some r) e) = ''''"
    if "\<not> isComplete r" "months r = Fin 0" "weeks r = Fin 0" "days r = Fin 0"
      "hours r = Fin 0" "minutes r = Fin 0" "seconds r = Fin 0" for r e
    using that by (simp add: getReadableTime_def part_zero)
  have c: "fst (getReadableTime env clk None e) = ''''"
    if t: "targetDate e = Some (Some t)" and lo: "0 < of_int t - getHighPrecisionTime clk e"
      and hi: "of_int t - getHighPrecisionTime clk e < 1000"
  proof -
    define diff where "diff = of_int t - getHighPrecisionTime clk e"
    define r where "r = fst (calculateTimeRemaining env clk e)"
    have z: "\<lfloor>diff / 1000\<rfloor> = 0" "\<lfloor>diff / 60000\<rfloor> = 0" "\<lfloor>diff / 3600000\<rfloor> = 0"
      "\<lfloor>diff / 86400000\<rfloor> = 0"
      using lo hi by (simp_all add: diff_def floor_eq_iff)
    have "\<not> isComplete r \<and> months r = Fin 0 \<and> weeks r = Fin 0 \<and> days r = Fin 0
        \<and> hours r = Fin 0 \<and> minutes r = Fin 0 \<and> seconds r = Fin 0"
      using calculateTimeRemaining_running [OF t diff_def, of env] lo
      by (simp add: Let_def z r_def diff_def [symmetric])
    then have "fst (getReadableTime env clk (Some r) (snd (calculateTimeRemaining env clk e))) = ''''"
      using b by blast
    then show ?thesis
      by (simp add: getReadableTime_def r_def split_beta)
  qed
  have d: "fst (getReadableTime env clk None e) = ''It's Boxing Day!''"
    if "targetDate e = Some (Some t)" "of_int t \<le> getHighPrecisionTime clk e"
    using calculateTimeRemaining_complete [OF that, of env] by (simp add: getReadableTime_def)
  show ?thesis using a b c d by blast
qed

text \<open>
  In the example runtime, half a second before local midnight of 26 December 2026 the
  object has \<open>isComplete = false\<close> and the readable time is empty; at midnight it is the
  fixed string.
\<close>

theorem getReadableTime_empty_witness:
  "let e = setBoxingDay example_env \<lparr>wall = 0, perf = 0\<rparr> (Some 2026)
             (CountdownEngine example_env None);
       early = \<lparr>wall = 1798221599500, perf = 1798221599500\<rparr>;
       late = \<lparr>wall = 1798221600000, perf = 1798221600000\<rparr>
   in targetDate e = Some (Some 1798221600000)
    \<and> (0::real) < of_int 1798221600000 - getHighPrecisionTime early e
    \<and> of_int 1798221600000 - getHighPrecisionTime early e < 1000
    \<and> \<not> isComplete (fst (calculateTimeRemaining example_env early e))
    \<and> fst (getReadableTime example_env early None e) = ''''
    \<and> of_int 1798221600000 \<le> getHighPrecisionTime late e
    \<and> fst (getReadableTime example_env late None e) = ''It's Boxing Day!''"
proof -
  define e where "e = setBoxingDay example_env \<lparr>wall = 0, perf = 0\<rparr> (Some 2026)
    (CountdownEngine example_env None)"
  define early where "early = \<lparr>wall = 1798221599500, perf = 1798221599500\<rparr>"
  define late where "late = \<lparr>wall = 1798221600000, perf = 1798221600000\<rparr>"
  have t: "targetDate e = Some (Some 1798221600000)"
    by (simp add: e_def setBoxingDay_def example_dec26)
  have hp: "useHighPrecision e"
    by (simp add: e_def setBoxingDay_def CountdownEngine_def example_env_def)
  have 1: "(0::real) < of_int 1798221600000 - getHighPrecisionTime early e"
    and 2: "of_int 1798221600000 - getHighPrecisionTime early e < 1000"
    and 3: "of_int 1798221600000 \<le> getHighPrecisionTime late e"
    using hp by (simp_all add: getHighPrecisionTime_def early_def late_def)
  have 4: "\<not> isComplete (fst (calculateTimeRemaining example_env early e))"
    using calculateTimeRemaining_running [OF t refl 1, of example_env]
    by (simp add: Let_def)
  note g = getReadableTime_empty [of _ example_env _ e 1798221600000]
  have 5: "fst (getReadableTime example_env early None e) = ''''"
    using g [of _ early] t 1 2 by blast
  have 6: "fst (getReadableTime example_env late None e) = ''It's Boxing Day!''"
    using g [of _ late] t 3 by blast
  show ?thesis
    using t 1 2 3 4 5 6 by (simp add: Let_def e_def [symmetric] early_def [symmetric]
        late_def [symmetric])
qed

section \<open>The progress field\<close>

lemma decimal_small: "n < 10 \<Longrightarrow> decimal n = [digit_char n]"
  by (subst decimal.simps) simp

lemma decimal_large: "10 \<le> n \<Longrightarrow> decimal n = decimal (n div 10) @ [digit_char (n mod 10)]"
  by (subst decimal.simps) simp

lemma is_digit_digit_char: "is_digit (digit_char n)"
proof -
  have "n mod 10 < length ''0123456789''" by simp
  then have "''0123456789'' ! (n mod 10) \<in> set ''0123456789''" by (rule nth_mem)
  then show ?thesis unfolding is_digit_def digit_char_def .
qed

lemma decimal_digits: "list_all is_digit (decimal n) \<and> decimal n \<noteq> []"
proof (induction n rule: decimal.induct)
  case (1 n)
  show ?case
  proof (cases "n < 10")
    case True
    then show ?thesis by (simp add: decimal_small is_digit_digit_char)
  next
    case False
    then show ?thesis using 1 by (simp add: decimal_large is_digit_digit_char)
  qed
qed

text \<open>Digits, a point and two digits: the shape of \<open>toFixed(2)\<close> on a value of moderate size.\<close>

lemma two_fraction_digits_toFixed2:
  assumes "0 \<le> x" and "x \<le> 100"
  shows "two_fraction_digits (toFixed2 env (Fin x))"
proof -
  define m where "m = decimal (nat \<lfloor>\<bar>x\<bar> * 100 + 1 / 2\<rfloor>)"
  define m' where "m' = (if length m \<le> 2 then replicate (3 - length m) (CHR ''0'') @ m else m)"
  define k where "k = length m'"
  have z: "is_digit (CHR ''0'')" by (simp add: is_digit_def)
  have dm: "list_all is_digit m" using decimal_digits by (simp add: m_def)
  have dm': "list_all is_digit m'" using dm z by (simp add: m'_def list_all_iff)
  have k: "3 \<le> k" by (simp add: k_def m'_def)
  have small: "\<not> 10 ^ 21 \<le> \<bar>x\<bar>" using assms by simp
  have r: "toFixed2 env (Fin x) = take (k - 2) m' @ ''.'' @ drop (k - 2) m'"
    using small assms(1) by (simp add: Let_def m_def m'_def k_def)
  have len: "length (take (k - 2) m' @ ''.'' @ drop (k - 2) m') = k + 1"
    using k by (simp add: k_def)
  have lt: "length (take (k - 2) m') = k - 2" using k by (simp add: k_def)
  have 1: "(take (k - 2) m' @ ''.'' @ drop (k - 2) m') ! (k + 1 - 3) = CHR ''.''"
    using k lt by (simp add: nth_append)
  have 2: "take (k + 1 - 3) (take (k - 2) m' @ ''.'' @ drop (k - 2) m') = take (k - 2) m'"
    using k lt by simp
  have 3: "drop (k + 1 - 2) (take (k - 2) m' @ ''.'' @ drop (k - 2) m') = drop (k - 2) m'"
    using k lt by simp
  have "list_all is_digit (take (k - 2) m')" "list_all is_digit (drop (k - 2) m')"
    using dm' by (auto simp: list_all_iff dest: in_set_takeD in_set_dropD)
  then show ?thesis
    unfolding r two_fraction_digits_def Let_def len using k 1 2 3 by simp
qed

text \<open>
  The clamped percentage of two finite times is a finite number from 0 to 100, unless
  both are zero.
\<close>

lemma progress_clamped:
  assumes "a \<noteq> 0 \<or> b \<noteq> 0"
  shows "\<exists>p. num_min (Fin 100) (num_max (Fin 0) (num_mul (num_div (Fin a) (Fin b)) (Fin 100)))
               = Fin p \<and> 0 \<le> p \<and> p \<le> 100"
proof (cases "b = 0")
  case True
  then have "a \<noteq> 0" using assms by simp
  then show ?thesis using True by (cases "0 < a") simp_all
next
  case False
  then show ?thesis by simp
qed

text \<open>
  Claim C9, as amended. The \<open>progress\<close> of the returned object is a string when a valid
  target is ahead of the clock and the number 100 when the target is at or before it. The
  string is what \<open>toFixed(2)\<close> returns: a decimal with exactly two fraction digits when
  1 January of the year used for the progress is a valid Date, and \<open>NaN\<close> when it is not.
\<close>

theorem progress_type:
  "(targetDate e = Some (Some t) \<and> getHighPrecisionTime clk e < of_int t \<longrightarrow>
      (case progress (fst (calculateTimeRemaining env clk e)) of
         Num n \<Rightarrow> False
       | Str s \<Rightarrow>
           if newDate env
                (case targetYear e of None \<Rightarrow> getFullYear env (wall clk)
                 | Some y \<Rightarrow> if y \<noteq> 0 then y else getFullYear env (wall clk)) 0 1 = None
           then s = ''NaN'' else two_fraction_digits s))
   \<and> (targetDate e = Some (Some t) \<and> of_int t \<le> getHighPrecisionTime clk e \<longrightarrow>
        progress (fst (calculateTimeRemaining env clk e)) = Num (Fin 100))"
proof -
  define Y where "Y = (case targetYear e of None \<Rightarrow> getFullYear env (wall clk)
    | Some y \<Rightarrow> if y \<noteq> 0 then y else getFullYear env (wall clk))"
  define now where "now = getHighPrecisionTime clk e"
  have run: "case progress (fst (calculateTimeRemaining env clk e)) of
         Num n \<Rightarrow> False
       | Str s \<Rightarrow> if newDate env Y 0 1 = None then s = ''NaN'' else two_fraction_digits s"
    if t: "targetDate e = Some (Some t)" and lt: "now < of_int t"
  proof -
    have pos: "0 < of_int t - getHighPrecisionTime clk e" using lt by (simp add: now_def)
    have p: "progress (fst (calculateTimeRemaining env clk e)) =
        Str (toFixed2 env (num_min (Fin 100) (num_max (Fin 0)
          (num_mul (num_div (num_sub (Fin now) (getTime (newDate env Y 0 1)))
                            (num_sub (Fin (of_int t)) (getTime (newDate env Y 0 1))))
                   (Fin 100)))))"
      using calculateTimeRemaining_running [OF t refl pos, of env]
      by (simp add: Let_def Y_def now_def)
    show ?thesis
    proof (cases "newDate env Y 0 1")
      case None
      then show ?thesis by (simp add: p)
    next
      case (Some ys)
      have "now - of_int ys \<noteq> 0 \<or> real_of_int t - of_int ys \<noteq> 0" using lt by linarith
      from progress_clamped [OF this] obtain q where
        q: "num_min (Fin 100) (num_max (Fin 0)
              (num_mul (num_div (Fin (now - of_int ys)) (Fin (of_int t - of_int ys))) (Fin 100)))
            = Fin q" "0 \<le> q" "q \<le> 100"
        by blast
      have "two_fraction_digits (toFixed2 env (Fin q))"
        using q(2,3) by (rule two_fraction_digits_toFixed2)
      then show ?thesis using Some q(1) by (simp add: p del: toFixed2.simps num_div.simps)
    qed
  qed
  have fin: "progress (fst (calculateTimeRemaining env clk e)) = Num (Fin 100)"
    if "targetDate e = Some (Some t)" "of_int t \<le> getHighPrecisionTime clk e"
    using calculateTimeRemaining_complete [OF that, of env] by simp
  show ?thesis using run fin unfolding Y_def now_def by blast
qed

lemma example_jan1: "newDate example_env 2026 0 1 = Some 1767204000000"
  by (simp add: newDate_def TimeClip_def UTC_def MakeDate_def MakeDay_def DayFromYear_def
      DaysInYear_def monthStart_def msPerDay_def example_env_def)

text \<open>
  In the example runtime, with the target 26 December 2026: on 26 November the progress is
  the string \<open>91.64\<close>, at the target it is the number 100.
\<close>

theorem progress_type_witness:
  "let e = setBoxingDay example_env \<lparr>wall = 0, perf = 0\<rparr> (Some 2026)
             (CountdownEngine example_env None);
       early = \<lparr>wall = 1795629600000, perf = 1795629600000\<rparr>;
       late = \<lparr>wall = 1798221600000, perf = 1798221600000\<rparr>
   in targetDate e = Some (Some 1798221600000)
    \<and> getHighPrecisionTime early e < of_int 1798221600000
    \<and> progress (fst (calculateTimeRemaining example_env early e)) = Str ''91.64''
    \<and> two_fraction_digits ''91.64''
    \<and> of_int 1798221600000 \<le> getHighPrecisionTime late e
    \<and> progress (fst (calculateTimeRemaining example_env late e)) = Num (Fin 100)"
proof -
  define e where "e = setBoxingDay example_env \<lparr>wall = 0, perf = 0\<rparr> (Some 2026)
    (CountdownEngine example_env None)"
  define early where "early = \<lparr>wall = 1795629600000, perf = 1795629600000\<rparr>"
  define late where "late = \<lparr>wall = 1798221600000, perf = 1798221600000\<rparr>"
  have t: "targetDate e = Some (Some 1798221600000)"
    by (simp add: e_def setBoxingDay_def example_dec26)
  have y: "targetYear e = Some 2026"
    by (simp add: e_def setBoxingDay_def)
  have hp: "useHighPrecision e"
    by (simp add: e_def setBoxingDay_def CountdownEngine_def example_env_def)
  have n1: "getHighPrecisionTime early e = 1795629600000"
    and n2: "getHighPrecisionTime late e = 1798221600000"
    using hp by (simp_all add: getHighPrecisionTime_def early_def late_def)
  have 1: "getHighPrecisionTime early e < of_int 1798221600000"
    and 2: "of_int 1798221600000 \<le> getHighPrecisionTime late e"
    by (simp_all add: n1 n2)
  have pos: "(0::real) < of_int 1798221600000 - getHighPrecisionTime early e"
    by (simp add: n1)
  have d: "decimal 9164 = ''9164''"
    by (simp add: decimal_small decimal_large digit_char_def)
  have p: "progress (fst (calculateTimeRemaining example_env early e)) = Str ''91.64''"
    using calculateTimeRemaining_running [OF t refl pos, of example_env]
    by (simp add: Let_def y example_jan1 n1 d)
  note g = progress_type [of e 1798221600000 _ example_env]
  from g [of early] t 1 have "case progress (fst (calculateTimeRemaining example_env early e)) of
         Num n \<Rightarrow> False
       | Str s \<Rightarrow>
           if newDate example_env
                (case targetYear e of None \<Rightarrow> getFullYear example_env (wall early)
                 | Some y \<Rightarrow> if y \<noteq> 0 then y else getFullYear example_env (wall early)) 0 1 = None
           then s = ''NaN'' else two_fraction_digits s"
    by blast
  then have q: "two_fraction_digits ''91.64''"
    by (simp add: p y example_jan1)
  from g [of late] t 2
  have r: "progress (fst (calculateTimeRemaining example_env late e)) = Num (Fin 100)"
    by blast
  show ?thesis
    using t 1 2 p q r by (simp add: Let_def e_def [symmetric] early_def [symmetric]
        late_def [symmetric])
qed

text \<open>
  Claim C9 as stated fails when the year recorded on the engine is beyond the range of
  Date: after \<open>setBoxingDay(300000)\<close> and \<open>setCustomDate\<close> of a valid date 30 days ahead,
  \<open>diff\<close> is positive and the progress is the string \<open>NaN\<close>.
\<close>

theorem progress_type_counterexample:
  "let e = setCustomDate example_env ''2026-12-26T00:00:00'' None
             (setBoxingDay example_env \<lparr>wall = 0, perf = 0\<rparr> (Some 300000)
                (CountdownEngine example_env None));
       r = fst (calculateTimeRemaining example_env
                  \<lparr>wall = 1795629600000, perf = 1795629600000\<rparr> e)
   in total_ms r = Fin 2592000000 \<and> \<not> isComplete r \<and> progress r = Str ''NaN''
    \<and> \<not> two_fraction_digits ''NaN''"
proof -
  define e where "e = setCustomDate example_env ''2026-12-26T00:00:00'' None
             (setBoxingDay example_env \<lparr>wall = 0, perf = 0\<rparr> (Some 300000)
                (CountdownEngine example_env None))"
  define clk where "clk = \<lparr>wall = 1795629600000, perf = 1795629600000\<rparr>"
  have t: "targetDate e = Some (Some 1798221600000)"
    by (simp add: e_def setCustomDate_def example_env_def example_parse_def)
  have y: "targetYear e = Some 300000"
    by (simp add: e_def setCustomDate_def setBoxingDay_def)
  have hp: "useHighPrecision e"
    by (simp add: e_def setCustomDate_def setBoxingDay_def CountdownEngine_def example_env_def)
  have n: "getHighPrecisionTime clk e = 1795629600000"
    using hp by (simp add: getHighPrecisionTime_def clk_def)
  have pos: "(0::real) < of_int 1798221600000 - getHighPrecisionTime clk e"
    by (simp add: n)
  have j: "newDate example_env 300000 0 1 = None"
    by (simp add: newDate_def TimeClip_def UTC_def MakeDate_def MakeDay_def DayFromYear_def
        DaysInYear_def monthStart_def msPerDay_def example_env_def)
  have "total_ms (fst (calculateTimeRemaining example_env clk e)) = Fin 2592000000
      \<and> \<not> isComplete (fst (calculateTimeRemaining example_env clk e))
      \<and> progress (fst (calculateTimeRemaining example_env clk e)) = Str ''NaN''"
    using calculateTimeRemaining_running [OF t refl pos, of example_env]
    by (simp add: Let_def y j n)
  moreover have "\<not> two_fraction_digits ''NaN''"
    by (simp add: two_fraction_digits_def)
  ultimately show ?thesis
    by (simp add: Let_def e_def [symmetric] clk_def [symmetric])
qed

section \<open>An unparseable custom date\<close>

lemma num_div_NaN: "num_div x NaN = NaN"
  by (cases x) simp_all

text \<open>
  Claim C3, as amended. \<open>setCustomDate\<close> of a string the Date parser rejects signals
  nothing and stores an Invalid Date. \<open>calculateTimeRemaining\<close> then does not detect it:
  the difference is NaN, which is not \<open><= 0\<close>, so the object has \<open>isComplete = false\<close>,
  every number in it is NaN and \<open>progress\<close> is the string \<open>NaN\<close>. The object has the same
  properties as for a valid target: there is no validity flag.
\<close>

theorem setCustomDate_unparseable:
  assumes "parseDate env s = None"
  shows "targetDate (setCustomDate env s name e) = Some None
       \<and> calculateTimeRemaining env clk (setCustomDate env s name e) =
           (\<lparr> total_ms = NaN, months = NaN, weeks = NaN, days = NaN, hours = NaN,
              minutes = NaN, seconds = NaN, milliseconds = NaN, totalDays = Some NaN,
              isComplete = False, progress = Str ''NaN'' \<rparr>,
            setCustomDate env s name e)"
  using assms by (simp add: setCustomDate_def calculateTimeRemaining_def num_div_NaN)

text \<open>In the example runtime the string \<open>not a date\<close> is rejected by the parser.\<close>

theorem setCustomDate_unparseable_witness:
  "parseDate example_env ''not a date'' = None
   \<and> targetDate (setCustomDate example_env ''not a date'' None
        (CountdownEngine example_env None)) = Some None
   \<and> fst (calculateTimeRemaining example_env \<lparr>wall = 1795629600000, perf = 1795629600000\<rparr>
        (setCustomDate example_env ''not a date'' None (CountdownEngine example_env None)))
      = \<lparr> total_ms = NaN, months = NaN, weeks = NaN, days = NaN, hours = NaN,
          minutes = NaN, seconds = NaN, milliseconds = NaN, totalDays = Some NaN,
          isComplete = False, progress = Str ''NaN'' \<rparr>"
proof -
  have h: "parseDate example_env ''not a date'' = None"
    by (simp add: example_env_def example_parse_def)
  show ?thesis
    using setCustomDate_unparseable [OF h, of None "CountdownEngine example_env None"
        "\<lparr>wall = 1795629600000, perf = 1795629600000\<rparr>"] h
    by simp
qed

text \<open>
  Claim C3 as stated fails: for that string no error is signalled (\<open>setCustomDate\<close>
  returns the engine), and the object computed from the invalid instant has NaN, not
  zero, in its unit fields.
\<close>

theorem setCustomDate_unparseable_counterexample:
  "let e = setCustomDate example_env ''not a date'' None (CountdownEngine example_env None);
       r = fst (calculateTimeRemaining example_env
                  \<lparr>wall = 1795629600000, perf = 1795629600000\<rparr> e)
   in parseDate example_env ''not a date'' = None \<and> targetDate e = Some None
    \<and> \<not> isComplete r \<and> total_ms r = NaN \<and> months r \<noteq> Fin 0 \<and> weeks r \<noteq> Fin 0
    \<and> days r \<noteq> Fin 0 \<and> hours r \<noteq> Fin 0 \<and> minutes r \<noteq> Fin 0 \<and> seconds r \<noteq> Fin 0
    \<and> milliseconds r \<noteq> Fin 0 \<and> totalDays r = Some NaN \<and> progress r = Str ''NaN''"
  by (simp add: Let_def setCustomDate_def calculateTimeRemaining_def num_div_NaN
      example_env_def example_parse_def CountdownEngine_def)

section \<open>Ticks and timers\<close>

lemma calculateTimeRemaining_snd:
  "targetDate e \<noteq> None \<Longrightarrow> snd (calculateTimeRemaining env clk e) = e"
  by (auto simp: calculateTimeRemaining_def Let_def)

lemma isComplete_calculateTimeRemaining:
  "targetDate e = Some d \<Longrightarrow>
     isComplete (fst (calculateTimeRemaining env clk e))
       = num_le (num_sub (getTime d) (Fin (getHighPrecisionTime clk e))) (Fin 0)"
  by (simp add: calculateTimeRemaining_def Let_def)

lemma update_eq:
  "update env clk w =
     (let r = fst (calculateTimeRemaining env clk (eng w));
          e = snd (calculateTimeRemaining env clk (eng w));
          w1 = w\<lparr>eng := e, ticks := ticks w @ [r]\<rparr>
      in if isComplete r then
           (let w2 = stop w1;
                w3 = w2\<lparr>completions := completions w2 + 1\<rparr>
            in (case targetYear (eng w3) of
                  Some y \<Rightarrow>
                    if y < yearRange_end (eng w3)
                    then w3\<lparr>timeouts := timeouts w3 @ [(nextHandle w3, wall clk + 5000)],
                            nextHandle := nextHandle w3 + 1\<rparr>
                    else w3
                | None \<Rightarrow> w3))
         else w1)"
  by (simp add: update_def split_beta Let_def)

text \<open>What \<open>stop\<close>, \<open>update\<close>, \<open>rafLoop\<close> and \<open>start\<close> leave unchanged.\<close>

lemma stop_fields:
  "targetYear (eng (stop w)) = targetYear (eng w)"
  "targetDate (eng (stop w)) = targetDate (eng w)"
  "eventName (eng (stop w)) = eventName (eng w)"
  "updateFrequency (eng (stop w)) = updateFrequency (eng w)"
  "yearRange_end (eng (stop w)) = yearRange_end (eng w)"
  "timeouts (stop w) = timeouts w"
  "nextHandle (stop w) = nextHandle w"
  by (simp_all add: stop_def Let_def split: option.splits)

lemma update_fields:
  assumes "targetDate (eng w) \<noteq> None"
  shows "targetYear (eng (update env clk w)) = targetYear (eng w)"
    and "targetDate (eng (update env clk w)) = targetDate (eng w)"
    and "eventName (eng (update env clk w)) = eventName (eng w)"
    and "updateFrequency (eng (update env clk w)) = updateFrequency (eng w)"
    and "nextHandle w \<le> nextHandle (update env clk w)"
  using assms
  by (simp_all add: update_eq Let_def calculateTimeRemaining_snd stop_fields
      split: option.splits)

lemma rafLoop_fields:
  assumes "targetDate (eng w) \<noteq> None"
  shows "targetYear (eng (rafLoop env clk w)) = targetYear (eng w)"
    and "targetDate (eng (rafLoop env clk w)) = targetDate (eng w)"
    and "eventName (eng (rafLoop env clk w)) = eventName (eng w)"
    and "0 < nextHandle w \<Longrightarrow> handle_truthy (rafId (eng (rafLoop env clk w)))"
    and "frames (rafLoop env clk w) \<noteq> []"
proof -
  have n: "0 < nextHandle (update env clk w)" if "0 < nextHandle w"
    using update_fields(5) [OF assms, of env clk] that by linarith
  show "targetYear (eng (rafLoop env clk w)) = targetYear (eng w)"
    "targetDate (eng (rafLoop env clk w)) = targetDate (eng w)"
    "eventName (eng (rafLoop env clk w)) = eventName (eng w)"
    "0 < nextHandle w \<Longrightarrow> handle_truthy (rafId (eng (rafLoop env clk w)))"
    "frames (rafLoop env clk w) \<noteq> []"
    using update_fields [OF assms, of env clk] n
    by (simp_all add: rafLoop_def Let_def)
qed

text \<open>
  After \<open>start\<close> the target is what it was, and a timer is registered: an interval or a
  frame callback.
\<close>

lemma start_fields:
  assumes "targetDate (eng w) \<noteq> None"
  shows "targetYear (eng (start env clk w)) = targetYear (eng w)"
    and "targetDate (eng (start env clk w)) = targetDate (eng w)"
    and "eventName (eng (start env clk w)) = eventName (eng w)"
    and "0 < nextHandle w \<Longrightarrow>
           handle_truthy (intervalId (eng (start env clk w)))
           \<or> handle_truthy (rafId (eng (start env clk w)))"
    and "intervals (start env clk w) \<noteq> [] \<or> frames (start env clk w) \<noteq> []"
proof -
  define w1 where "w1 = (if handle_truthy (intervalId (eng w)) then stop w else w)"
  define w2 where "w2 = update env clk w1"
  have t1: "targetDate (eng w1) \<noteq> None" using assms by (simp add: w1_def stop_fields)
  have t2: "targetDate (eng w2) \<noteq> None"
    using t1 update_fields(2) [OF t1, of env clk] by (simp add: w2_def)
  have f1: "targetYear (eng w1) = targetYear (eng w)" "targetDate (eng w1) = targetDate (eng w)"
    "eventName (eng w1) = eventName (eng w)" "nextHandle w1 = nextHandle w"
    by (simp_all add: w1_def stop_fields)
  have f2: "targetYear (eng w2) = targetYear (eng w)" "targetDate (eng w2) = targetDate (eng w)"
    "eventName (eng w2) = eventName (eng w)" "nextHandle w \<le> nextHandle w2"
    using update_fields [OF t1, of env clk] f1 by (simp_all add: w2_def)
  have s: "start env clk w =
      (if hasRAF env \<and> num_lt (updateFrequency (eng w2)) (Fin 100)
       then rafLoop env clk w2
       else w2\<lparr>intervals := intervals w2 @ [nextHandle w2],
               eng := (eng w2)\<lparr>intervalId := Some (nextHandle w2)\<rparr>,
               nextHandle := nextHandle w2 + 1\<rparr>)"
    by (simp add: start_def Let_def w1_def w2_def)
  show "targetYear (eng (start env clk w)) = targetYear (eng w)"
    "targetDate (eng (start env clk w)) = targetDate (eng w)"
    "eventName (eng (start env clk w)) = eventName (eng w)"
    using f2 rafLoop_fields(1,2,3) [OF t2, of env clk] by (simp_all add: s)
  show "handle_truthy (intervalId (eng (start env clk w)))
      \<or> handle_truthy (rafId (eng (start env clk w)))" if "0 < nextHandle w"
  proof -
    have "0 < nextHandle w2" using that f2(4) by linarith
    then show ?thesis using rafLoop_fields(4) [OF t2, of env clk] by (simp add: s)
  qed
  show "intervals (start env clk w) \<noteq> [] \<or> frames (start env clk w) \<noteq> []"
    using rafLoop_fields(5) [OF t2, of env clk] by (simp add: s)
qed

section \<open>Starting twice\<close>

text \<open>
  The interval branch of \<open>start\<close>. In a world where no frame callback is pending and the
  only interval registered is the one \<open>intervalId\<close> names, \<open>start\<close> with an interval of
  100 ms or more (or without \<open>requestAnimationFrame\<close>) leaves exactly one interval
  registered, again the one \<open>intervalId\<close> names. So a second \<open>start\<close> replaces the timer
  of the first.
\<close>

lemma start_interval_single:
  assumes mode: "\<not> (hasRAF env \<and> num_lt (updateFrequency (eng w)) (Fin 100))"
    and t: "targetDate (eng w) \<noteq> None"
    and f: "frames w = []" and r: "rafId (eng w) = None"
    and i: "intervals w = (case intervalId (eng w) of None \<Rightarrow> [] | Some h \<Rightarrow> [h])"
    and z: "intervalId (eng w) \<noteq> Some 0" and n: "0 < nextHandle w"
  shows "\<exists>h. 0 < h \<and> intervals (start env clk w) = [h]
            \<and> intervalId (eng (start env clk w)) = Some h
            \<and> h < nextHandle (start env clk w)"
    and "frames (start env clk w) = []" and "rafId (eng (start env clk w)) = None"
    and "updateFrequency (eng (start env clk w)) = updateFrequency (eng w)"
    and "targetDate (eng (start env clk w)) \<noteq> None"
proof -
  define w1 where "w1 = (if handle_truthy (intervalId (eng w)) then stop w else w)"
  define w2 where "w2 = update env clk w1"
  have w1: "intervals w1 = []" "intervalId (eng w1) = None" "frames w1 = []"
    "rafId (eng w1) = None" "nextHandle w1 = nextHandle w"
    "updateFrequency (eng w1) = updateFrequency (eng w)" "targetDate (eng w1) = targetDate (eng w)"
    using f r i z
    by (cases "intervalId (eng w)"; simp add: w1_def stop_def Let_def)+
  have t1: "targetDate (eng w1) \<noteq> None" using t w1(7) by simp
  have s1: "stop (w1\<lparr>ticks := x\<rparr>) = w1\<lparr>ticks := x\<rparr>" for x
    using w1 by (simp add: stop_def Let_def)
  have w2: "intervals w2 = []" "intervalId (eng w2) = None" "frames w2 = []"
    "rafId (eng w2) = None" "nextHandle w \<le> nextHandle w2"
    "updateFrequency (eng w2) = updateFrequency (eng w)" "targetDate (eng w2) \<noteq> None"
    using w1 t1
    by (simp_all add: w2_def update_eq Let_def calculateTimeRemaining_snd s1
        split: option.splits)
  have s: "start env clk w =
      w2\<lparr>intervals := intervals w2 @ [nextHandle w2],
         eng := (eng w2)\<lparr>intervalId := Some (nextHandle w2)\<rparr>,
         nextHandle := nextHandle w2 + 1\<rparr>"
    using mode w2(6) by (auto simp: start_def Let_def w1_def [symmetric] w2_def [symmetric])
  have "0 < nextHandle w2" using n w2(5) by linarith
  then show "\<exists>h. 0 < h \<and> intervals (start env clk w) = [h]
            \<and> intervalId (eng (start env clk w)) = Some h
            \<and> h < nextHandle (start env clk w)"
    using w2 by (simp add: s)
  show "frames (start env clk w) = []" "rafId (eng (start env clk w)) = None"
    "updateFrequency (eng (start env clk w)) = updateFrequency (eng w)"
    "targetDate (eng (start env clk w)) \<noteq> None"
    using w2 by (simp_all add: s)
qed

lemma start_twice_interval:
  assumes "\<not> (hasRAF env \<and> num_lt (updateFrequency e) (Fin 100))"
    and "targetDate e \<noteq> None" and "intervalId e = None" and "rafId e = None"
  shows "\<exists>h. intervals (start env clk' (start env clk (newWorld e))) = [h]
           \<and> intervalId (eng (start env clk' (start env clk (newWorld e)))) = Some h"
    and "frames (start env clk' (start env clk (newWorld e))) = []"
proof -
  define w where "w = start env clk (newWorld e)"
  have p: "\<not> (hasRAF env \<and> num_lt (updateFrequency (eng (newWorld e))) (Fin 100))"
    "targetDate (eng (newWorld e)) \<noteq> None" "frames (newWorld e) = []"
    "rafId (eng (newWorld e)) = None"
    "intervals (newWorld e)
       = (case intervalId (eng (newWorld e)) of None \<Rightarrow> [] | Some h \<Rightarrow> [h])"
    "intervalId (eng (newWorld e)) \<noteq> Some 0" "0 < nextHandle (newWorld e)"
    using assms by (simp_all add: newWorld_def)
  note q = start_interval_single [OF p, of clk, folded w_def]
  have a: "\<exists>h. 0 < h \<and> intervals w = [h] \<and> intervalId (eng w) = Some h \<and> h < nextHandle w"
    by (rule q(1))
  have b: "frames w = []" "rafId (eng w) = None" "updateFrequency (eng w) = updateFrequency e"
      "targetDate (eng w) \<noteq> None"
    using q(2,3,4,5) by (simp_all add: newWorld_def)
  from a obtain h where h: "0 < h" "intervals w = [h]" "intervalId (eng w) = Some h"
    "h < nextHandle w" by blast
  have m: "\<not> (hasRAF env \<and> num_lt (updateFrequency (eng w)) (Fin 100))"
    using assms(1) b(3) by simp
  have i: "intervals w = (case intervalId (eng w) of None \<Rightarrow> [] | Some h \<Rightarrow> [h])"
    using h by simp
  have z: "intervalId (eng w) \<noteq> Some 0" using h by simp
  have n: "0 < nextHandle w" using h by linarith
  from start_interval_single(1) [OF m b(4) b(1) b(2) i z n, of clk']
  show "\<exists>h. intervals (start env clk' (start env clk (newWorld e))) = [h]
           \<and> intervalId (eng (start env clk' (start env clk (newWorld e)))) = Some h"
    unfolding w_def by blast
  from start_interval_single(2) [OF m b(4) b(1) b(2) i z n, of clk']
  show "frames (start env clk' (start env clk (newWorld e))) = []"
    unfolding w_def .
qed

text \<open>
  Claim C5 at an engine with \<open>updateFrequency = 50\<close> in a runtime with
  \<open>requestAnimationFrame\<close>: \<open>start()\<close> tests only \<open>intervalId\<close> before it stops, so the
  second \<open>start()\<close> leaves the first frame callback registered and registers a second one.
  Two frame loops are pending; \<open>stop()\<close> then cancels only the one \<open>rafId\<close> names, and the
  other keeps rescheduling itself.
\<close>

theorem start_twice_frames:
  "let e = setBoxingDay example_env \<lparr>wall = 0, perf = 0\<rparr> (Some 2026)
             (CountdownEngine example_env (Some (Fin 50)));
       clk = \<lparr>wall = 1795629600000, perf = 1795629600000\<rparr>;
       w = start example_env clk (start example_env clk (newWorld e))
   in frames (start example_env clk (newWorld e)) = [1]
    \<and> frames w = [1, 2] \<and> intervals w = [] \<and> rafId (eng w) = Some 2
    \<and> frames (stop w) = [1]
    \<and> frames (frame_callback example_env clk 1 (stop w)) = [3]"
proof -
  define e where "e = setBoxingDay example_env \<lparr>wall = 0, perf = 0\<rparr> (Some 2026)
             (CountdownEngine example_env (Some (Fin 50)))"
  define clk where "clk = \<lparr>wall = 1795629600000, perf = 1795629600000\<rparr>"
  define r where "r = fst (calculateTimeRemaining example_env clk e)"
  have e: "e = \<lparr> targetDate = Some (Some 1798221600000), targetYear = Some 2026,
      eventName = None, intervalId = None, rafId = None, lastUpdateTime = 0,
      updateFrequency = Fin 50, yearRange_start = 2024, yearRange_end = 2035,
      useHighPrecision = True \<rparr>"
    by (simp add: e_def setBoxingDay_def CountdownEngine_def example_dec26)
      (simp add: example_env_def)
  have raf: "hasRAF example_env" by (simp add: example_env_def)
  have c: "calculateTimeRemaining example_env clk (e\<lparr>rafId := x, lastUpdateTime := y\<rparr>)
      = (r, e\<lparr>rafId := x, lastUpdateTime := y\<rparr>)" for x y
  proof -
    have "calculateTimeRemaining example_env clk (e\<lparr>rafId := x, lastUpdateTime := y\<rparr>)
        = (fst (calculateTimeRemaining example_env clk e), e\<lparr>rafId := x, lastUpdateTime := y\<rparr>)"
      by (simp add: calculateTimeRemaining_def Let_def getHighPrecisionTime_def e)
    then show ?thesis by (simp add: r_def)
  qed
  have c0: "calculateTimeRemaining example_env clk e = (r, e)"
    using c [where x = "rafId e" and y = "lastUpdateTime e"] by simp
  have td: "targetDate e = Some (Some 1798221600000)" and hp: "useHighPrecision e"
    by (simp_all add: e)
  have nc: "\<not> isComplete r"
    using isComplete_calculateTimeRemaining [OF td, of example_env clk]
    by (simp add: r_def getHighPrecisionTime_def hp clk_def)
  define w1 where "w1 = start example_env clk (newWorld e)"
  have w1: "w1 = \<lparr> eng = e\<lparr>rafId := Some 1, lastUpdateTime := 1795629600000\<rparr>,
      intervals = [], frames = [1], timeouts = [], nextHandle = 2, ticks = [r, r],
      completions = 0 \<rparr>"
    unfolding w1_def start_def newWorld_def
    by (simp add: Let_def update_def rafLoop_def c0 nc raf)
      (simp add: e getHighPrecisionTime_def clk_def)
  define w2 where "w2 = start example_env clk w1"
  have w2: "w2 = \<lparr> eng = e\<lparr>rafId := Some 2, lastUpdateTime := 1795629600000\<rparr>,
      intervals = [], frames = [1, 2], timeouts = [], nextHandle = 3, ticks = [r, r, r],
      completions = 0 \<rparr>"
    unfolding w2_def start_def w1
    by (simp add: Let_def update_def rafLoop_def c nc raf)
      (simp add: e getHighPrecisionTime_def clk_def)
  have s: "stop w2 = \<lparr> eng = e\<lparr>rafId := None, lastUpdateTime := 1795629600000\<rparr>,
      intervals = [], frames = [1], timeouts = [], nextHandle = 3, ticks = [r, r, r],
      completions = 0 \<rparr>"
    unfolding w2 stop_def by (simp add: Let_def e)
  have f: "frames (frame_callback example_env clk 1 (stop w2)) = [3]"
    unfolding s frame_callback_def
    by (simp add: Let_def rafLoop_def) (simp add: e getHighPrecisionTime_def clk_def)
  have a: "frames w1 = [1]" by (simp add: w1)
  have b: "frames w2 = [1, 2] \<and> intervals w2 = [] \<and> rafId (eng w2) = Some 2"
    by (simp add: w2)
  have d: "frames (stop w2) = [1]" by (simp add: s)
  show ?thesis
    unfolding Let_def e_def [symmetric] clk_def [symmetric] w1_def [symmetric]
      w2_def [symmetric]
    using a b d f by blast
qed

section \<open>The rollover\<close>

text \<open>
  Claim C4, as amended. \<open>stop()\<close> clears the interval timer and the frame callback and
  nothing else: a rollover timeout that is pending stays pending. When it fires after a
  \<open>stop()\<close>, the engine calls \<open>setBoxingDay(targetYear + 1)\<close> and is started again. For a
  \<open>targetYear\<close> other than -1 the recorded year becomes \<open>targetYear + 1\<close> and the target
  becomes local midnight of 26 December of that year, or of the year
  \<open>1900 + targetYear + 1\<close> where \<open>targetYear + 1\<close> lies from 1 to 99 (an Invalid Date
  where that instant is outside the range of Date). For \<open>targetYear = -1\<close> the argument 0
  is falsy, and for an undefined \<open>targetYear\<close> it is NaN: the recorded year and the
  target become those of \<open>setBoxingDay()\<close> without an argument at that clock reading.
\<close>

theorem stop_keeps_rollover:
  assumes "map_of (timeouts w) h = Some due" and "due \<le> wall clk" and "0 < nextHandle w"
  shows "timeouts (stop w) = timeouts w
       \<and> (let w' = timeout_callback env clk h (stop w);
              dflt = setBoxingDay env clk None (eng w)
          in (case targetYear (eng w) of
                Some y \<Rightarrow>
                  if y = - 1
                  then targetYear (eng w') = targetYear dflt
                     \<and> targetDate (eng w') = targetDate dflt
                  else targetYear (eng w') = Some (y + 1)
                     \<and> targetDate (eng w') = Some (TimeClip (localMidnight env
                          (if 1 \<le> y + 1 \<and> y + 1 \<le> 99 then 1900 + (y + 1) else y + 1) 11 26))
              | None \<Rightarrow> targetYear (eng w') = targetYear dflt
                     \<and> targetDate (eng w') = targetDate dflt)
           \<and> (handle_truthy (intervalId (eng w')) \<or> handle_truthy (rafId (eng w')))
           \<and> (intervals w' \<noteq> [] \<or> frames w' \<noteq> []))"
proof -
  define ws where "ws = (stop w)\<lparr>timeouts := filter (\<lambda>p. fst p \<noteq> h) (timeouts (stop w))\<rparr>"
  define arg where "arg = (case targetYear (eng w) of None \<Rightarrow> None | Some y \<Rightarrow> Some (y + 1))"
  define w0 where "w0 = ws\<lparr>eng := setBoxingDay env clk arg (eng ws)\<rparr>"
  define w' where "w' = timeout_callback env clk h (stop w)"
  have c: "w' = start env clk w0"
    using assms(1,2)
    by (simp add: w'_def timeout_callback_def rollover_def stop_fields ws_def w0_def arg_def)
  have n: "0 < nextHandle w0" using assms(3) by (simp add: w0_def ws_def stop_fields)
  have t: "targetDate (eng w0) \<noteq> None" by (simp add: w0_def setBoxingDay_def Let_def)
  have y: "targetYear (eng w') = targetYear (eng w0)"
    and d: "targetDate (eng w') = targetDate (eng w0)"
    and i: "handle_truthy (intervalId (eng w')) \<or> handle_truthy (rafId (eng w'))"
    and f: "intervals w' \<noteq> [] \<or> frames w' \<noteq> []"
    using start_fields [OF t, of env clk] n by (simp_all add: c)
  have dflt: "targetYear (setBoxingDay env clk None (eng ws))
        = targetYear (setBoxingDay env clk None (eng w))"
      "targetDate (setBoxingDay env clk None (eng ws))
        = targetDate (setBoxingDay env clk None (eng w))"
    by (simp_all add: setBoxingDay_def Let_def)
  have e0: "case targetYear (eng w) of
      Some y \<Rightarrow>
        if y = - 1
        then targetYear (eng w0) = targetYear (setBoxingDay env clk None (eng w))
           \<and> targetDate (eng w0) = targetDate (setBoxingDay env clk None (eng w))
        else targetYear (eng w0) = Some (y + 1)
           \<and> targetDate (eng w0) = Some (TimeClip (localMidnight env
                (if 1 \<le> y + 1 \<and> y + 1 \<le> 99 then 1900 + (y + 1) else y + 1) 11 26))
    | None \<Rightarrow> targetYear (eng w0) = targetYear (setBoxingDay env clk None (eng w))
           \<and> targetDate (eng w0) = targetDate (setBoxingDay env clk None (eng w))"
  proof (cases "targetYear (eng w)")
    case None
    then have "arg = None" by (simp add: arg_def)
    then show ?thesis using None dflt by (simp add: w0_def)
  next
    case (Some y)
    show ?thesis
    proof (cases "y = - 1")
      case True
      then have "arg = Some 0" using Some by (simp add: arg_def)
      then have "setBoxingDay env clk arg (eng ws) = setBoxingDay env clk None (eng ws)"
        by (simp add: setBoxingDay_def)
      then show ?thesis using Some True dflt by (simp add: w0_def)
    next
      case False
      then have nz: "y + 1 \<noteq> 0" by simp
      have a: "arg = Some (y + 1)" using Some by (simp add: arg_def)
      have "targetYear (eng w0) = Some (y + 1)"
        "targetDate (eng w0) = Some (newDate env (y + 1) 11 26)"
        using nz by (simp_all add: w0_def a setBoxingDay_def Let_def)
      moreover have "newDate env (y + 1) 11 26 = TimeClip (localMidnight env
          (if 1 \<le> y + 1 \<and> y + 1 \<le> 99 then 1900 + (y + 1) else y + 1) 11 26)"
        using nz by (auto simp: newDate_def localMidnight_def Let_def)
      ultimately show ?thesis using Some False by simp
    qed
  qed
  have s: "timeouts (stop w) = timeouts w" by (rule stop_fields)
  from e0 have e1: "case targetYear (eng w) of
      Some y \<Rightarrow>
        if y = - 1
        then targetYear (eng w') = targetYear (setBoxingDay env clk None (eng w))
           \<and> targetDate (eng w') = targetDate (setBoxingDay env clk None (eng w))
        else targetYear (eng w') = Some (y + 1)
           \<and> targetDate (eng w') = Some (TimeClip (localMidnight env
                (if 1 \<le> y + 1 \<and> y + 1 \<le> 99 then 1900 + (y + 1) else y + 1) 11 26))
    | None \<Rightarrow> targetYear (eng w') = targetYear (setBoxingDay env clk None (eng w))
           \<and> targetDate (eng w') = targetDate (setBoxingDay env clk None (eng w))"
    by (simp only: y d)
  from s e1 i f show ?thesis
    unfolding Let_def w'_def [symmetric] by blast
qed

text \<open>
  The example: the engine counts down to 26 December 2026 with the default interval and
  is started at the target instant. The first tick completes and registers the rollover
  timeout (handle 1, due five seconds later); \<open>start\<close> then still registers its interval
  (handle 2).
\<close>

lemma example_completion:
  "start example_env \<lparr>wall = 1798221600000, perf = 1798221600000\<rparr>
     (newWorld (setBoxingDay example_env \<lparr>wall = 0, perf = 0\<rparr> (Some 2026)
        (CountdownEngine example_env None)))
   = \<lparr> eng = \<lparr> targetDate = Some (Some 1798221600000), targetYear = Some 2026,
               eventName = None, intervalId = Some 2, rafId = None, lastUpdateTime = 0,
               updateFrequency = Fin 1000, yearRange_start = 2024, yearRange_end = 2035,
               useHighPrecision = True \<rparr>,
       intervals = [2], frames = [], timeouts = [(1, 1798221605000)], nextHandle = 3,
       ticks = [\<lparr> total_ms = Fin 0, months = Fin 0, weeks = Fin 0, days = Fin 0,
                  hours = Fin 0, minutes = Fin 0, seconds = Fin 0, milliseconds = Fin 0,
                  totalDays = None, isComplete = True, progress = Num (Fin 100) \<rparr>],
       completions = 1 \<rparr>"
proof -
  define e where "e = setBoxingDay example_env \<lparr>wall = 0, perf = 0\<rparr> (Some 2026)
    (CountdownEngine example_env None)"
  define clk where "clk = \<lparr>wall = 1798221600000, perf = 1798221600000\<rparr>"
  have e: "e = \<lparr> targetDate = Some (Some 1798221600000), targetYear = Some 2026,
      eventName = None, intervalId = None, rafId = None, lastUpdateTime = 0,
      updateFrequency = Fin 1000, yearRange_start = 2024, yearRange_end = 2035,
      useHighPrecision = True \<rparr>"
    by (simp add: e_def setBoxingDay_def CountdownEngine_def example_dec26)
      (simp add: example_env_def)
  have td: "targetDate e = Some (Some 1798221600000)"
    and hp: "of_int 1798221600000 \<le> getHighPrecisionTime clk e"
    by (simp_all add: e getHighPrecisionTime_def clk_def)
  note c = calculateTimeRemaining_complete [OF td hp, of example_env]
  show ?thesis
    unfolding e_def [symmetric] clk_def [symmetric]
    by (simp add: start_def newWorld_def update_def stop_def Let_def c)
      (simp add: e clk_def)
qed

text \<open>
  A first tick at or after the target of an engine with a recorded year below
  \<open>yearRange.end\<close> and an update frequency of at least 100 ms: \<open>start\<close> completes,
  registers the rollover timeout as handle 1, due five seconds later, and then its
  interval.
\<close>

lemma start_completion:
  assumes "targetDate e = Some (Some t)" and "of_int t \<le> getHighPrecisionTime clk e"
    and "targetYear e = Some y" and "y < yearRange_end e"
    and "intervalId e = None" and "rafId e = None"
    and "\<not> num_lt (updateFrequency e) (Fin 100)"
  shows "start env clk (newWorld e)
       = \<lparr> eng = e\<lparr>intervalId := Some 2\<rparr>, intervals = [2], frames = [],
           timeouts = [(1, wall clk + 5000)], nextHandle = 3,
           ticks = [fst (calculateTimeRemaining env clk e)], completions = 1 \<rparr>"
proof -
  note c = calculateTimeRemaining_complete [OF assms(1,2), of env]
  have u: "update env clk (newWorld e)
      = \<lparr> eng = e, intervals = [], frames = [], timeouts = [(1, wall clk + 5000)],
          nextHandle = 2, ticks = [fst (calculateTimeRemaining env clk e)],
          completions = 1 \<rparr>"
    using assms(3,4,5,6) by (simp add: update_def newWorld_def stop_def Let_def c)
  show ?thesis
    using assms(5,7) by (simp add: start_def Let_def u) (simp add: newWorld_def u)
qed

text \<open>
  Three runs, each with \<open>stop()\<close> after the completion and the timeout firing five seconds
  after it. The engine that counts down to 26 December 2026 and completes there rolls
  over to 26 December 2027. An engine set to year 51 (its target is 26 December 1951)
  records the year 52 and its target becomes 26 December 1952. An engine set to year -1
  and started on 26 November 2026 calls \<open>setBoxingDay(0)\<close> and lands on the default
  target, 26 December 2026.
\<close>

theorem stop_keeps_rollover_witness:
  "let c0 = \<lparr>wall = 1798221600000, perf = 1798221600000\<rparr>;
       later = \<lparr>wall = 1798221605000, perf = 1798221605000\<rparr>;
       c1 = \<lparr>wall = 1795629600000, perf = 1795629600000\<rparr>;
       later1 = \<lparr>wall = 1795629605000, perf = 1795629605000\<rparr>;
       w = start example_env c0
             (newWorld (setBoxingDay example_env \<lparr>wall = 0, perf = 0\<rparr> (Some 2026)
                (CountdownEngine example_env None)));
       w' = timeout_callback example_env later 1 (stop w);
       v = start example_env c0
             (newWorld (setBoxingDay example_env \<lparr>wall = 0, perf = 0\<rparr> (Some 51)
                (CountdownEngine example_env None)));
       v' = timeout_callback example_env later 1 (stop v);
       u = start example_env c1
             (newWorld (setBoxingDay example_env \<lparr>wall = 0, perf = 0\<rparr> (Some (- 1))
                (CountdownEngine example_env None)));
       u' = timeout_callback example_env later1 1 (stop u)
   in map_of (timeouts w) 1 = Some 1798221605000 \<and> 1798221605000 \<le> wall later
    \<and> 0 < nextHandle w \<and> targetYear (eng w) = Some 2026
    \<and> timeouts (stop w) = timeouts w
    \<and> targetYear (eng w') = Some 2027
    \<and> targetDate (eng w') = Some (newDate example_env 2027 11 26)
    \<and> map_of (timeouts v) 1 = Some 1798221605000 \<and> 0 < nextHandle v
    \<and> targetYear (eng v) = Some 51
    \<and> targetDate (eng v) = Some (Some (localMidnight example_env 1951 11 26))
    \<and> timeouts (stop v) = timeouts v
    \<and> targetYear (eng v') = Some 52
    \<and> targetDate (eng v') = Some (Some (localMidnight example_env 1952 11 26))
    \<and> map_of (timeouts u) 1 = Some 1795629605000 \<and> 1795629605000 \<le> wall later1
    \<and> 0 < nextHandle u \<and> targetYear (eng u) = Some (- 1)
    \<and> timeouts (stop u) = timeouts u
    \<and> targetYear (eng u') = Some 2026
    \<and> targetDate (eng u') = Some (Some (localMidnight example_env 2026 11 26))"
proof -
  define c0 where "c0 = \<lparr>wall = 1798221600000, perf = 1798221600000\<rparr>"
  define later where "later = \<lparr>wall = 1798221605000, perf = 1798221605000\<rparr>"
  define c1 where "c1 = \<lparr>wall = 1795629600000, perf = 1795629600000\<rparr>"
  define later1 where "later1 = \<lparr>wall = 1795629605000, perf = 1795629605000\<rparr>"
  define e51 where "e51 = setBoxingDay example_env \<lparr>wall = 0, perf = 0\<rparr> (Some 51)
    (CountdownEngine example_env None)"
  define em1 where "em1 = setBoxingDay example_env \<lparr>wall = 0, perf = 0\<rparr> (Some (- 1))
    (CountdownEngine example_env None)"
  define w where "w = start example_env c0
    (newWorld (setBoxingDay example_env \<lparr>wall = 0, perf = 0\<rparr> (Some 2026)
       (CountdownEngine example_env None)))"
  define v where "v = start example_env c0 (newWorld e51)"
  define u where "u = start example_env c1 (newWorld em1)"
  have m: "localMidnight example_env 1951 11 26 = - 568620000000"
    "localMidnight example_env 1952 11 26 = - 536997600000"
    "localMidnight example_env (- 1) 11 26 = - 62167759200000"
    "localMidnight example_env 2026 11 26 = 1798221600000"
    "localMidnight example_env 2027 11 26 = 1829757600000"
    by (simp_all add: localMidnight_def UTC_def MakeDate_def MakeDay_def DayFromYear_def
        DaysInYear_def monthStart_def msPerDay_def example_env_def)
  have d: "newDate example_env 51 11 26 = Some (- 568620000000)"
    "newDate example_env (- 1) 11 26 = Some (- 62167759200000)"
    "newDate example_env 2026 11 26 = Some 1798221600000"
    "newDate example_env 2027 11 26 = Some 1829757600000"
    using m by (simp_all add: newDate_def localMidnight_def TimeClip_def)
  have f51: "targetDate e51 = Some (Some (- 568620000000))" "targetYear e51 = Some 51"
    "51 < yearRange_end e51" "intervalId e51 = None" "rafId e51 = None"
    "\<not> num_lt (updateFrequency e51) (Fin 100)" "useHighPrecision e51"
    by (simp_all add: e51_def setBoxingDay_def CountdownEngine_def d)
      (simp_all add: example_env_def)
  have fm1: "targetDate em1 = Some (Some (- 62167759200000))" "targetYear em1 = Some (- 1)"
    "- 1 < yearRange_end em1" "intervalId em1 = None" "rafId em1 = None"
    "\<not> num_lt (updateFrequency em1) (Fin 100)" "useHighPrecision em1"
    by (simp_all add: em1_def setBoxingDay_def CountdownEngine_def d)
      (simp_all add: example_env_def)
  have g51: "of_int (- 568620000000) \<le> getHighPrecisionTime c0 e51"
    using f51(7) by (simp add: getHighPrecisionTime_def c0_def)
  have gm1: "of_int (- 62167759200000) \<le> getHighPrecisionTime c1 em1"
    using fm1(7) by (simp add: getHighPrecisionTime_def c1_def)
  have hw: "map_of (timeouts w) 1 = Some 1798221605000" "1798221605000 \<le> wall later"
    "0 < nextHandle w"
    and yw: "targetYear (eng w) = Some 2026"
    unfolding w_def c0_def by (simp_all add: example_completion later_def)
  have hv: "map_of (timeouts v) 1 = Some 1798221605000" "1798221605000 \<le> wall later"
    "0 < nextHandle v"
    and yv: "targetYear (eng v) = Some 51"
      "targetDate (eng v) = Some (Some (localMidnight example_env 1951 11 26))"
    unfolding v_def start_completion [OF f51(1) g51 f51(2,3,4,5,6), of example_env]
    by (simp_all add: f51 m c0_def later_def)
  have hu: "map_of (timeouts u) 1 = Some 1795629605000" "1795629605000 \<le> wall later1"
    "0 < nextHandle u"
    and yu: "targetYear (eng u) = Some (- 1)"
    unfolding u_def start_completion [OF fm1(1) gm1 fm1(2,3,4,5,6), of example_env]
    by (simp_all add: fm1 c1_def later1_def)
  have y26: "getFullYear example_env (wall later1) = 2026"
    by (simp add: later1_def getFullYear_def YearFromTime_def YearFromDay_def LocalTime_def
        DayFromYear_def msPerDay_def example_env_def Let_def)
  have dflt: "targetYear (setBoxingDay example_env later1 None (eng u)) = Some 2026"
    "targetDate (setBoxingDay example_env later1 None (eng u)) = Some (Some 1798221600000)"
    by (simp_all add: setBoxingDay_def Let_def y26 d) (simp_all add: later1_def)
  have W: "timeouts (stop w) = timeouts w
      \<and> targetYear (eng (timeout_callback example_env later 1 (stop w))) = Some 2027
      \<and> targetDate (eng (timeout_callback example_env later 1 (stop w)))
          = Some (newDate example_env 2027 11 26)"
    using stop_keeps_rollover [OF hw, of example_env] yw
    by (simp add: Let_def d m TimeClip_def)
  have V: "timeouts (stop v) = timeouts v
      \<and> targetYear (eng (timeout_callback example_env later 1 (stop v))) = Some 52
      \<and> targetDate (eng (timeout_callback example_env later 1 (stop v)))
          = Some (Some (localMidnight example_env 1952 11 26))"
    using stop_keeps_rollover [OF hv, of example_env] yv(1)
    by (simp add: Let_def m TimeClip_def)
  have U: "timeouts (stop u) = timeouts u
      \<and> targetYear (eng (timeout_callback example_env later1 1 (stop u))) = Some 2026
      \<and> targetDate (eng (timeout_callback example_env later1 1 (stop u)))
          = Some (Some (localMidnight example_env 2026 11 26))"
    using stop_keeps_rollover [OF hu, of example_env] yu
    by (simp add: Let_def m dflt)
  from W V U hw hv hu yw yv yu show ?thesis
    unfolding Let_def w_def v_def u_def e51_def em1_def c0_def later_def c1_def later1_def
    by blast
qed

lemma example_dec26_2027: "newDate example_env 2027 11 26 = Some 1829757600000"
  by (simp add: newDate_def TimeClip_def UTC_def MakeDate_def MakeDay_def DayFromYear_def
      DaysInYear_def monthStart_def msPerDay_def example_env_def)

text \<open>
  Claim C4 as stated fails: in the example \<open>stop()\<close> is called inside the five seconds,
  and the rollover still fires, advances the target to 26 December 2027 and restarts the
  engine (interval 3).
\<close>

theorem stop_keeps_rollover_counterexample:
  "let w = start example_env \<lparr>wall = 1798221600000, perf = 1798221600000\<rparr>
             (newWorld (setBoxingDay example_env \<lparr>wall = 0, perf = 0\<rparr> (Some 2026)
                (CountdownEngine example_env None)));
       w' = timeout_callback example_env \<lparr>wall = 1798221605000, perf = 1798221605000\<rparr> 1
              (stop w)
   in completions w = 1 \<and> timeouts w = [(1, 1798221605000)]
    \<and> intervals (stop w) = [] \<and> frames (stop w) = [] \<and> intervalId (eng (stop w)) = None
    \<and> timeouts (stop w) = [(1, 1798221605000)]
    \<and> targetYear (eng w') = Some 2027
    \<and> targetDate (eng w') = Some (Some 1829757600000)
    \<and> intervalId (eng w') = Some 3 \<and> intervals w' = [3] \<and> length (ticks w') = 2"
proof -
  define clk where "clk = \<lparr>wall = 1798221605000, perf = 1798221605000\<rparr>"
  define e where "e = \<lparr> targetDate = Some (Some 1829757600000), targetYear = Some 2027,
      eventName = None, intervalId = None, rafId = None, lastUpdateTime = 0,
      updateFrequency = Fin 1000, yearRange_start = 2024, yearRange_end = 2035,
      useHighPrecision = True \<rparr>"
  have td: "targetDate e = Some (Some 1829757600000)" by (simp add: e_def)
  have nc: "\<not> isComplete (fst (calculateTimeRemaining example_env clk e))"
    using isComplete_calculateTimeRemaining [OF td, of example_env clk]
    by (simp add: getHighPrecisionTime_def e_def clk_def)
  have sn: "snd (calculateTimeRemaining example_env clk e) = e"
    by (rule calculateTimeRemaining_snd) (simp add: td)
  have raf: "\<not> num_lt (updateFrequency e) (Fin 100)" by (simp add: e_def)
  have wc: "wall clk = 1798221605000" by (simp add: clk_def)
  show ?thesis
    unfolding Let_def example_completion clk_def [symmetric]
    by (simp add: stop_def timeout_callback_def rollover_def setBoxingDay_def
        example_dec26_2027 Let_def wc)
      (simp add: e_def [symmetric] start_def update_eq Let_def nc sn raf, simp add: e_def)
qed

section \<open>Custom targets and the rollover\<close>

text \<open>
  With no year recorded on the engine, a completed tick registers no timeout.
\<close>

lemma update_without_targetYear:
  assumes "targetDate (eng w) \<noteq> None" and "targetYear (eng w) = None"
  shows "timeouts (update env clk w) = timeouts w"
  using assms
  by (simp add: update_eq Let_def calculateTimeRemaining_snd stop_fields)

text \<open>
  Claim C6 at the page's own sequence of calls: \<open>setBoxingDay()\<close> on 26 November 2026
  records the year 2026; \<open>setCustomDate\<close> replaces the target by 1 November 2026 and leaves
  \<open>targetYear\<close> as it is; \<open>start()\<close> completes at once and, because
  \<open>targetYear < yearRange.end\<close> still holds, registers the rollover. Five seconds later the
  rollover replaces the custom target by 26 December 2027 and restarts the engine.
\<close>

theorem custom_target_rolls_over:
  "let e1 = setBoxingDay example_env \<lparr>wall = 1795629600000, perf = 1795629600000\<rparr> None
              (CountdownEngine example_env None);
       e2 = setCustomDate example_env ''2026-11-01T00:00:00'' (Some ''Birthday'') e1;
       w1 = start example_env \<lparr>wall = 1795629600000, perf = 1795629600000\<rparr> (newWorld e2);
       w2 = timeout_callback example_env \<lparr>wall = 1795629605000, perf = 1795629605000\<rparr> 1 w1
   in targetYear e1 = Some 2026
    \<and> targetDate e2 = Some (Some 1793469600000) \<and> targetYear e2 = Some 2026
    \<and> completions w1 = 1 \<and> timeouts w1 = [(1, 1795629605000)]
    \<and> eventName (eng w2) = Some ''Birthday''
    \<and> targetYear (eng w2) = Some 2027
    \<and> targetDate (eng w2) = Some (Some 1829757600000)
    \<and> intervals w2 = [3] \<and> intervalId (eng w2) = Some 3"
proof -
  define clk where "clk = \<lparr>wall = 1795629600000, perf = 1795629600000\<rparr>"
  define clk' where "clk' = \<lparr>wall = 1795629605000, perf = 1795629605000\<rparr>"
  define e1 where "e1 = setBoxingDay example_env clk None (CountdownEngine example_env None)"
  define e2 where "e2 = setCustomDate example_env ''2026-11-01T00:00:00'' (Some ''Birthday'') e1"
  define w1 where "w1 = start example_env clk (newWorld e2)"
  define w2 where "w2 = timeout_callback example_env clk' 1 w1"
  define e3 where "e3 = \<lparr> targetDate = Some (Some 1829757600000), targetYear = Some 2027,
      eventName = Some ''Birthday'', intervalId = None, rafId = None, lastUpdateTime = 0,
      updateFrequency = Fin 1000, yearRange_start = 2024, yearRange_end = 2035,
      useHighPrecision = True \<rparr>"
  have y: "getFullYear example_env 1795629600000 = 2026"
    by (simp add: getFullYear_def YearFromTime_def YearFromDay_def LocalTime_def
        DayFromYear_def msPerDay_def example_env_def)
  have e1: "e1 = \<lparr> targetDate = Some (Some 1798221600000), targetYear = Some 2026,
      eventName = None, intervalId = None, rafId = None, lastUpdateTime = 0,
      updateFrequency = Fin 1000, yearRange_start = 2024, yearRange_end = 2035,
      useHighPrecision = True \<rparr>"
    by (simp add: e1_def clk_def setBoxingDay_def CountdownEngine_def y example_dec26)
      (simp add: example_env_def)
  have e2: "e2 = \<lparr> targetDate = Some (Some 1793469600000), targetYear = Some 2026,
      eventName = Some ''Birthday'', intervalId = None, rafId = None, lastUpdateTime = 0,
      updateFrequency = Fin 1000, yearRange_start = 2024, yearRange_end = 2035,
      useHighPrecision = True \<rparr>"
    by (simp add: e2_def e1 setCustomDate_def example_env_def example_parse_def)
  have td: "targetDate e2 = Some (Some 1793469600000)"
    and hp: "of_int 1793469600000 \<le> getHighPrecisionTime clk e2"
    by (simp_all add: e2 getHighPrecisionTime_def clk_def)
  note c = calculateTimeRemaining_complete [OF td hp, of example_env]
  have w1: "w1 = \<lparr> eng = e2\<lparr>intervalId := Some 2\<rparr>,
       intervals = [2], frames = [], timeouts = [(1, 1795629605000)], nextHandle = 3,
       ticks = [\<lparr> total_ms = Fin 0, months = Fin 0, weeks = Fin 0, days = Fin 0,
                  hours = Fin 0, minutes = Fin 0, seconds = Fin 0, milliseconds = Fin 0,
                  totalDays = None, isComplete = True, progress = Num (Fin 100) \<rparr>],
       completions = 1 \<rparr>"
    unfolding w1_def
    by (simp add: start_def newWorld_def update_def stop_def Let_def c)
      (simp add: e2 clk_def)
  have td3: "targetDate e3 = Some (Some 1829757600000)" by (simp add: e3_def)
  have nc: "\<not> isComplete (fst (calculateTimeRemaining example_env clk' e3))"
    using isComplete_calculateTimeRemaining [OF td3, of example_env clk']
    by (simp add: getHighPrecisionTime_def e3_def clk'_def)
  have sn: "snd (calculateTimeRemaining example_env clk' e3) = e3"
    by (rule calculateTimeRemaining_snd) (simp add: td3)
  have wc: "wall clk' = 1795629605000" by (simp add: clk'_def)
  have w2: "eng w2 = e3\<lparr>intervalId := Some 3\<rparr> \<and> intervals w2 = [3]"
    unfolding w2_def w1
    by (simp add: stop_def timeout_callback_def rollover_def setBoxingDay_def
        example_dec26_2027 Let_def wc e2 start_def update_eq e3_def
        nc [unfolded e3_def] sn [unfolded e3_def])
  have r1: "targetYear e1 = Some 2026" by (simp add: e1)
  have r2: "targetDate e2 = Some (Some 1793469600000) \<and> targetYear e2 = Some 2026"
    by (simp add: e2)
  have r3: "completions w1 = 1 \<and> timeouts w1 = [(1, 1795629605000)]" by (simp add: w1)
  have r4: "eventName (eng w2) = Some ''Birthday'' \<and> targetYear (eng w2) = Some 2027
      \<and> targetDate (eng w2) = Some (Some 1829757600000) \<and> intervals w2 = [3]
      \<and> intervalId (eng w2) = Some 3"
    using w2 by (simp add: e3_def)
  show ?thesis
    unfolding Let_def clk_def [symmetric] clk'_def [symmetric] e1_def [symmetric]
      e2_def [symmetric] w1_def [symmetric] w2_def [symmetric]
    using r1 r2 r3 r4 by blast
qed

section \<open>Two observations on the decomposition\<close>

text \<open>
  The months field has no modulus: 400 days before the target it is 13.
\<close>

lemma months_exceed_eleven:
  "months (fst (calculateTimeRemaining example_env
       \<lparr>wall = 1763661600000, perf = 1763661600000\<rparr>
       (setBoxingDay example_env \<lparr>wall = 0, perf = 0\<rparr> (Some 2026)
          (CountdownEngine example_env None)))) = Fin 13"
proof -
  define e where "e = setBoxingDay example_env \<lparr>wall = 0, perf = 0\<rparr> (Some 2026)
    (CountdownEngine example_env None)"
  define clk where "clk = \<lparr>wall = 1763661600000, perf = 1763661600000\<rparr>"
  have t: "targetDate e = Some (Some 1798221600000)"
    by (simp add: e_def setBoxingDay_def example_dec26)
  have n: "getHighPrecisionTime clk e = 1763661600000"
    by (simp add: getHighPrecisionTime_def clk_def e_def setBoxingDay_def CountdownEngine_def
        example_env_def)
  have pos: "(0::real) < of_int 1798221600000 - getHighPrecisionTime clk e"
    by (simp add: n)
  show ?thesis
    using calculateTimeRemaining_running [OF t refl pos, of example_env]
    by (simp add: Let_def n e_def [symmetric] clk_def [symmetric])
qed

text \<open>
  The six fields that \<open>getReadableTime\<close> prints are all zero not only in the last second:
  exactly 28 days before the target the months are 0 (28 div 30), the weeks are 0
  (4 mod 4) and the days are 0 (28 mod 7), and the readable time is empty.
\<close>

lemma readable_time_empty_28_days_before:
  "fst (getReadableTime example_env \<lparr>wall = 1795802400000, perf = 1795802400000\<rparr> None
       (setBoxingDay example_env \<lparr>wall = 0, perf = 0\<rparr> (Some 2026)
          (CountdownEngine example_env None))) = ''''"
proof -
  define e where "e = setBoxingDay example_env \<lparr>wall = 0, perf = 0\<rparr> (Some 2026)
    (CountdownEngine example_env None)"
  define clk where "clk = \<lparr>wall = 1795802400000, perf = 1795802400000\<rparr>"
  have t: "targetDate e = Some (Some 1798221600000)"
    by (simp add: e_def setBoxingDay_def example_dec26)
  have n: "getHighPrecisionTime clk e = 1795802400000"
    by (simp add: getHighPrecisionTime_def clk_def e_def setBoxingDay_def CountdownEngine_def
        example_env_def)
  have pos: "(0::real) < of_int 1798221600000 - getHighPrecisionTime clk e"
    by (simp add: n)
  have "\<not> isComplete (fst (calculateTimeRemaining example_env clk e))
      \<and> months (fst (calculateTimeRemaining example_env clk e)) = Fin 0
      \<and> weeks (fst (calculateTimeRemaining example_env clk e)) = Fin 0
      \<and> days (fst (calculateTimeRemaining example_env clk e)) = Fin 0
      \<and> hours (fst (calculateTimeRemaining example_env clk e)) = Fin 0
      \<and> minutes (fst (calculateTimeRemaining example_env clk e)) = Fin 0
      \<and> seconds (fst (calculateTimeRemaining example_env clk e)) = Fin 0"
    using calculateTimeRemaining_running [OF t refl pos, of example_env]
    by (simp add: Let_def n)
  then show ?thesis
    unfolding e_def [symmetric] clk_def [symmetric]
    by (simp add: getReadableTime_def split_beta part_zero)
qed

section \<open>The exact difference and the computed one\<close>

text \<open>
  With the target of \<open>setBoxingDay(2100)\<close> and the clock \<open>2^-12\<close> ms after local midnight of
  26 November 2026, the decomposition of the exact difference has 27057 whole days; the
  difference that line 71 computes is \<open>2337811200000\<close> and has 27058.
\<close>

lemma exact_and_binary64_differ:
  "let e = setBoxingDay example_env \<lparr>wall = 0, perf = 0\<rparr> (Some 2100)
             (CountdownEngine example_env None);
       clk = \<lparr>wall = 1795629600000, perf = 1795629600000 + 1 / 4096\<rparr>
   in totalDays (fst (calculateTimeRemaining example_env clk e)) = Some (Fin 27057)
    \<and> totalDays (fst (calculateTimeRemaining64 example_env clk e)) = Some (Fin 27058)"
proof -
  define e where "e = setBoxingDay example_env \<lparr>wall = 0, perf = 0\<rparr> (Some 2100)
    (CountdownEngine example_env None)"
  define clk where "clk = \<lparr>wall = 1795629600000, perf = 1795629600000 + 1 / 4096\<rparr>"
  have m: "localMidnight example_env 2100 11 26 = 4133440800000"
    by (simp add: localMidnight_def UTC_def MakeDate_def MakeDay_def DayFromYear_def
        DaysInYear_def monthStart_def msPerDay_def example_env_def)
  have t: "targetDate e = Some (Some 4133440800000)"
    using m by (simp add: e_def setBoxingDay_def newDate_def TimeClip_def localMidnight_def)
  have g: "getHighPrecisionTime clk e = 1795629600000 + 1 / 4096"
    by (simp add: getHighPrecisionTime_def clk_def e_def setBoxingDay_def
        CountdownEngine_def example_env_def)
  have x: "(9575674675199999 / 4096 :: real) = of_int 4133440800000 - getHighPrecisionTime clk e"
    by (simp add: g)
  have px: "(0::real) < 9575674675199999 / 4096" by simp
  have ex: "exponent (9575674675199999 / 4096) = 41"
    by (rule exponent_eq) simp_all
  have "round64 (9575674675199999 / 4096) = Fin 2337811200000"
    by (simp add: round64_def ex roundHalfEven_def Let_def)
  then have d: "num_sub64 (Fin (of_int 4133440800000)) (Fin (getHighPrecisionTime clk e))
      = Fin 2337811200000"
    by (simp add: g)
  have p: "(0::real) < 2337811200000" "(2337811200000::real) < 2 ^ 53" by simp_all
  have A: "totalDays (fst (calculateTimeRemaining example_env clk e)) = Some (Fin 27057)"
    using calculateTimeRemaining_running [OF t x px, of example_env] by (simp add: Let_def)
  have B: "totalDays (fst (calculateTimeRemaining64 example_env clk e)) = Some (Fin 27058)"
    using calculateTimeRemaining64_running [OF t d p, of example_env] by (simp add: Let_def)
  from A B show ?thesis unfolding Let_def e_def clk_def by blast
qed

end
